theory Spec2Isabelle
  imports Main
begin

section \<open>Python values\<close>

text \<open>
  A Python \<open>str\<close> is a sequence of Unicode code points. It is modelled as a list of the
  code points' numbers, so that the UTF-8 encoding done by \<open>Path.write_text\<close> can be
  written out. \<open>cps\<close> turns an ASCII literal of the source into such a list.
\<close>

type_synonym pystr = "nat list"

definition cps :: "string \<Rightarrow> pystr" where
  "cps s = map of_char s"

text \<open>
  The values the code formats into the output with an f-string: the page number found in
  a chunk's metadata and the chunk's text. The model covers \<open>None\<close>, \<open>bool\<close>, \<open>int\<close>
  and \<open>str\<close> there. A chunk's \<open>metadata\<close> entry is such a value or a dictionary of them.
\<close>

datatype pyscalar = PNone | PBool bool | PInt int | PStr pystr

datatype pyval = Scalar pyscalar | Dict "pystr \<Rightarrow> pyscalar option"

text \<open>
  A page chunk is a Python \<open>dict\<close>; the code reads its keys \<open>"metadata"\<close> and \<open>"text"\<close>
  only, each with \<open>dict.get\<close>, so a chunk is the pair of these two entries, \<open>None\<close> where
  the key is absent.
\<close>

record page_dict =
  metadata :: "pyval option"
  page_text :: "pyscalar option"

datatype md_output = MdStr pystr | MdChunks "page_dict list"

subsection \<open>\<open>str()\<close> of a scalar\<close>

fun digits :: "nat \<Rightarrow> pystr" where
  "digits n = (if n < 10 then [48 + n] else digits (n div 10) @ [48 + n mod 10])"

declare digits.simps [simp del]

definition str_int :: "int \<Rightarrow> pystr" where
  "str_int i = (if i < 0 then 45 # digits (nat (- i)) else digits (nat i))"

fun py_str :: "pyscalar \<Rightarrow> pystr" where
  "py_str PNone = cps ''None''"
| "py_str (PBool b) = (if b then cps ''True'' else cps ''False'')"
| "py_str (PInt i) = str_int i"
| "py_str (PStr s) = s"

section \<open>Exceptions and the file system\<close>

type_synonym path = "pystr list"

text \<open>
  Every \<open>raise\<close> the wrapper can meet is a value. \<open>NoValidPages n\<close> is the
  \<open>ValueError\<close> of \<open>parse_pdf_to_markdown\<close> for a document of \<open>n\<close> pages;
  \<open>AttributeError v\<close> is raised by \<open>v.get\<close> on a value that is no dictionary;
  \<open>TypeError\<close> is raised by \<open>write_text\<close> on data that is no \<open>str\<close>;
  \<open>EngineError\<close> is any exception raised inside the PDF library.
\<close>

datatype pyexn =
    NoValidPages nat
  | AttributeError pyscalar
  | TypeError
  | UnicodeEncodeError
  | FileExistsError path
  | NotADirectoryError path
  | IsADirectoryError path
  | FileNotFoundError path
  | EngineError pystr

datatype node = Dir | File "nat list"

type_synonym fs = "path \<Rightarrow> node option"

section \<open>The PDF library\<close>

record options =
  write_images :: bool
  image_path :: pystr
  dpi :: int
  image_format :: pystr
  page_chunks :: bool

text \<open>
  \<open>fitz.open\<close>, \<open>len(doc)\<close> and \<open>pymupdf4llm.to_markdown\<close> are library calls. The wrapper
  is modelled over any library: a record of the three operations. \<open>to_markdown\<close> may
  write image files, so it returns the file system it leaves behind.
\<close>

record 'doc backend =
  fitz_open :: "fs \<Rightarrow> pystr \<Rightarrow> pystr + 'doc"
  page_count :: "'doc \<Rightarrow> nat"
  to_markdown :: "'doc \<Rightarrow> int list \<Rightarrow> options \<Rightarrow> fs \<Rightarrow> (pystr + md_output) \<times> fs"

definition engine_result :: "(pystr + md_output) \<times> fs \<Rightarrow> (pyexn + md_output) \<times> fs" where
  "engine_result r = (case r of (Inl m, fs') \<Rightarrow> (Inl (EngineError m), fs') | (Inr out, fs') \<Rightarrow> (Inr out, fs'))"

section \<open>\<open>parse_pdf_to_markdown\<close>\<close>

text \<open>
  \<open>if pages:\<close> tests the truth value of the argument: \<open>None\<close> and the empty list are
  both false.
\<close>

fun truthy :: "int list option \<Rightarrow> bool" where
  "truthy None = False"
| "truthy (Some ps) = (ps \<noteq> [])"

definition parse_pdf_to_markdown ::
  "'doc backend \<Rightarrow> pystr \<Rightarrow> int list option \<Rightarrow> options \<Rightarrow> fs \<Rightarrow> (pyexn + md_output) \<times> fs" where
  "parse_pdf_to_markdown B pdf_path pages opts fs =
     (case fitz_open B fs pdf_path of
        Inl m \<Rightarrow> (Inl (EngineError m), fs)
      | Inr doc \<Rightarrow>
          (let total_pages = page_count B doc in
           if truthy pages then
             (let pages' = [p \<leftarrow> the pages. 0 \<le> p \<and> p < int total_pages] in
              if pages' = [] then (Inl (NoValidPages total_pages), fs)
              else engine_result (to_markdown B doc pages' opts fs))
           else engine_result (to_markdown B doc (map int [0..<total_pages]) opts fs)))"

section \<open>Writing files\<close>

subsection \<open>UTF-8\<close>

text \<open>
  \<open>write_text(..., encoding="utf-8")\<close> encodes with the strict error handler: a lone
  surrogate (U+D800 to U+DFFF) raises \<open>UnicodeEncodeError\<close>. Bytes are numbers below 256.
  A number from 0x110000 on is no code point and no Python \<open>str\<close> holds one; the encoder
  rejects it as well, which keeps it total.
\<close>

definition utf8_encode_cp :: "nat \<Rightarrow> nat list option" where
  "utf8_encode_cp c =
     (if c < 0x80 then Some [c]
      else if c < 0x800 then Some [0xC0 + c div 64, 0x80 + c mod 64]
      else if c < 0x10000 then
        (if 0xD800 \<le> c \<and> c < 0xE000 then None
         else Some [0xE0 + c div 4096, 0x80 + c div 64 mod 64, 0x80 + c mod 64])
      else if c < 0x110000 then
        Some [0xF0 + c div 262144, 0x80 + c div 4096 mod 64, 0x80 + c div 64 mod 64,
              0x80 + c mod 64]
      else None)"

fun utf8_encode :: "pystr \<Rightarrow> nat list option" where
  "utf8_encode [] = Some []"
| "utf8_encode (c # s) =
     (case utf8_encode_cp c of
        None \<Rightarrow> None
      | Some bs \<Rightarrow> (case utf8_encode s of None \<Rightarrow> None | Some rest \<Rightarrow> Some (bs @ rest)))"

text \<open>
  The strict decoder (\<open>bytes.decode("utf-8")\<close>): continuation bytes must lie in
  0x80..0xBF, and overlong forms, surrogates and values above U+10FFFF are rejected.
\<close>

definition cont :: "nat \<Rightarrow> bool" where
  "cont b = (0x80 \<le> b \<and> b < 0xC0)"

fun utf8_decode :: "nat list \<Rightarrow> pystr option" where
  "utf8_decode [] = Some []"
| "utf8_decode (b # bs) =
     (if b < 0x80 then map_option ((#) b) (utf8_decode bs)
      else if 0xC2 \<le> b \<and> b < 0xE0 then
        (case bs of
           b1 # r \<Rightarrow>
             if cont b1 then map_option ((#) ((b - 0xC0) * 64 + (b1 - 0x80))) (utf8_decode r)
             else None
         | _ \<Rightarrow> None)
      else if 0xE0 \<le> b \<and> b < 0xF0 then
        (case bs of
           b1 # b2 # r \<Rightarrow>
             (let c = (b - 0xE0) * 4096 + (b1 - 0x80) * 64 + (b2 - 0x80) in
              if cont b1 \<and> cont b2 \<and> 0x800 \<le> c \<and> \<not> (0xD800 \<le> c \<and> c < 0xE000)
              then map_option ((#) c) (utf8_decode r) else None)
         | _ \<Rightarrow> None)
      else if 0xF0 \<le> b \<and> b < 0xF5 then
        (case bs of
           b1 # b2 # b3 # r \<Rightarrow>
             (let c = (b - 0xF0) * 262144 + (b1 - 0x80) * 4096 + (b2 - 0x80) * 64 + (b3 - 0x80) in
              if cont b1 \<and> cont b2 \<and> cont b3 \<and> 0x10000 \<le> c \<and> c < 0x110000
              then map_option ((#) c) (utf8_decode r) else None)
         | _ \<Rightarrow> None)
      else None)"

subsection \<open>Directories and files\<close>

text \<open>
  A path is the list of its components below one root, as \<open>pathlib.Path\<close> holds it;
  \<open>Path.parent\<close> drops the last component and leaves the root as it is. The file system
  maps a path to a directory or to a file with its bytes. Permissions are not modelled.
\<close>

definition parent :: "path \<Rightarrow> path" where
  "parent p = butlast p"

fun ancestors :: "path \<Rightarrow> path list" where
  "ancestors [] = []"
| "ancestors (c # p) = [] # map ((#) c) (ancestors p)"

fun is_file :: "node option \<Rightarrow> bool" where
  "is_file (Some (File _)) = True"
| "is_file _ = False"

text \<open>
  \<open>Path.mkdir(parents=True, exist_ok=True)\<close>: every missing directory on the way to
  \<open>p\<close> and \<open>p\<close> itself are created; an existing directory is left alone; a regular
  file in the way is an error and nothing is created.
\<close>

definition mkdir_parents :: "path \<Rightarrow> fs \<Rightarrow> (pyexn + unit) \<times> fs" where
  "mkdir_parents p fs =
     (if list_ex (\<lambda>q. is_file (fs q)) (ancestors p) then (Inl (NotADirectoryError p), fs)
      else if is_file (fs p) then (Inl (FileExistsError p), fs)
      else (Inr (), (\<lambda>q. if (q = p \<or> q \<in> set (ancestors p)) \<and> fs q = None then Some Dir
                          else fs q)))"

text \<open>
  \<open>Path.write_text(data, encoding="utf-8")\<close> on a POSIX system (no newline
  translation). Opening with mode \<open>"w"\<close> creates or truncates the file before the data
  is encoded, so a failing encoding leaves an empty file.
\<close>

definition write_text :: "path \<Rightarrow> md_output \<Rightarrow> fs \<Rightarrow> (pyexn + unit) \<times> fs" where
  "write_text p data fs =
     (case data of
        MdChunks _ \<Rightarrow> (Inl TypeError, fs)
      | MdStr s \<Rightarrow>
          (if fs p = Some Dir then (Inl (IsADirectoryError p), fs)
           else (case fs (parent p) of
                   None \<Rightarrow> (Inl (FileNotFoundError p), fs)
                 | Some (File _) \<Rightarrow> (Inl (NotADirectoryError p), fs)
                 | Some Dir \<Rightarrow>
                     (case utf8_encode s of
                        None \<Rightarrow> (Inl UnicodeEncodeError, fs(p \<mapsto> File []))
                      | Some bs \<Rightarrow> (Inr (), fs(p \<mapsto> File bs))))))"

text \<open>Reading a file back as text: \<open>Path.read_bytes().decode("utf-8")\<close>.\<close>

definition file_text :: "fs \<Rightarrow> path \<Rightarrow> pystr option" where
  "file_text fs p = (case fs p of Some (File bs) \<Rightarrow> utf8_decode bs | _ \<Rightarrow> None)"

section \<open>\<open>save_markdown\<close>\<close>

text \<open>
  \<open>page_dict.get("metadata", {}).get("page", "unknown")\<close>: a missing \<open>"metadata"\<close> key
  gives the empty dictionary, whose \<open>get\<close> returns the default; a value that is no
  dictionary has no \<open>get\<close>.
\<close>

definition page_number_of :: "page_dict \<Rightarrow> pyexn + pyscalar" where
  "page_number_of page_dict =
     (case metadata page_dict of
        None \<Rightarrow> Inr (PStr (cps ''unknown''))
      | Some (Dict m) \<Rightarrow>
          (case m (cps ''page'') of None \<Rightarrow> Inr (PStr (cps ''unknown'')) | Some v \<Rightarrow> Inr v)
      | Some (Scalar v) \<Rightarrow> Inl (AttributeError v))"

definition text_of :: "page_dict \<Rightarrow> pyscalar" where
  "text_of page_dict = (case page_text page_dict of None \<Rightarrow> PStr [] | Some v \<Rightarrow> v)"

text \<open>The loop of lines 52 to 54, with \<open>full_md\<close> as the accumulator.\<close>

fun concat_pages :: "page_dict list \<Rightarrow> pystr \<Rightarrow> pyexn + pystr" where
  "concat_pages [] full_md = Inr full_md"
| "concat_pages (page_dict # rest) full_md =
     (case page_number_of page_dict of
        Inl e \<Rightarrow> Inl e
      | Inr page_number \<Rightarrow>
          concat_pages rest
            (full_md @ cps ''# Page '' @ py_str page_number @ [10, 10]
               @ py_str (text_of page_dict) @ [10, 10]))"

fun is_list :: "md_output \<Rightarrow> bool" where
  "is_list (MdChunks _) = True"
| "is_list (MdStr _) = False"

definition save_markdown :: "md_output \<Rightarrow> path \<Rightarrow> bool \<Rightarrow> fs \<Rightarrow> (pyexn + unit) \<times> fs" where
  "save_markdown md_output output_path page_chunks' fs =
     (case mkdir_parents (parent output_path) fs of
        (Inl e, fs1) \<Rightarrow> (Inl e, fs1)
      | (Inr _, fs1) \<Rightarrow>
          (if page_chunks' \<and> is_list md_output then
             (case md_output of
                MdChunks chunks \<Rightarrow>
                  (case concat_pages chunks [] of
                     Inl e \<Rightarrow> (Inl e, fs1)
                   | Inr full_md \<Rightarrow> write_text output_path (MdStr full_md) fs1)
              | MdStr s \<Rightarrow> write_text output_path (MdStr s) fs1)
           else write_text output_path md_output fs1))"

section \<open>\<open>main\<close>\<close>

text \<open>
  \<open>parser_cli.parse_args()\<close> either returns the namespace of the arguments or ends the
  process itself: on arguments it cannot accept, argparse prints the usage and the error
  to standard error and exits with status 2; on \<open>-h\<close> it prints the help to standard
  output and exits with status 0. Which of the three happens is decided inside argparse,
  so \<open>main\<close> takes the outcome of the call as its input.
\<close>

record args =
  arg_input :: pystr
  arg_output :: path
  arg_pages :: "int list option"
  arg_options :: options

datatype parse_args_result = Namespace args | ArgumentError pystr | HelpRequested

text \<open>
  What the process prints is kept as the list of lines on each stream, each line with
  the values formatted into it. Standard output is a UTF-8 text stream with the strict
  error handler: \<open>print\<close> raises \<open>UnicodeEncodeError\<close>, and writes nothing, when the
  line holds a code point that cannot be encoded (a lone surrogate, which a file name
  taken from the command line can hold). The line that names the output path consists of
  the path's components and ASCII characters, so it can be encoded exactly when the
  components can. The exceptions Python raises itself render to messages in which such
  code points are escaped; the message of a library exception is the library's own.
\<close>

datatype out_line =
    SuccessfullyProcessed pystr
  | OutputSavedTo path
  | AnErrorOccurred pyexn
  | Usage pystr
  | Help
  | Traceback pyexn

record world =
  files :: fs
  stdout :: "out_line list"
  stderr :: "out_line list"

fun encodable :: "out_line \<Rightarrow> bool" where
  "encodable (SuccessfullyProcessed inp) = (utf8_encode inp \<noteq> None)"
| "encodable (OutputSavedTo p) = (utf8_encode (concat p) \<noteq> None)"
| "encodable (AnErrorOccurred (EngineError m)) = (utf8_encode m \<noteq> None)"
| "encodable _ = True"

definition print_line :: "out_line \<Rightarrow> world \<Rightarrow> (pyexn + unit) \<times> world" where
  "print_line l w =
     (if encodable l then (Inr (), w\<lparr>stdout := stdout w @ [l]\<rparr>)
      else (Inl UnicodeEncodeError, w))"

text \<open>
  The body of the \<open>try\<close> statement, lines 100 to 111: extraction, saving and the two
  success lines, stopping at the first exception.
\<close>

definition try_block :: "'doc backend \<Rightarrow> args \<Rightarrow> world \<Rightarrow> (pyexn + unit) \<times> world" where
  "try_block B a w =
     (case parse_pdf_to_markdown B (arg_input a) (arg_pages a) (arg_options a) (files w) of
        (Inl e, fs1) \<Rightarrow> (Inl e, w\<lparr>files := fs1\<rparr>)
      | (Inr md_output, fs1) \<Rightarrow>
          (case save_markdown md_output (arg_output a) (page_chunks (arg_options a)) fs1 of
             (Inl e, fs2) \<Rightarrow> (Inl e, w\<lparr>files := fs2\<rparr>)
           | (Inr _, fs2) \<Rightarrow>
               (case print_line (SuccessfullyProcessed (arg_input a)) (w\<lparr>files := fs2\<rparr>) of
                  (Inl e, w1) \<Rightarrow> (Inl e, w1)
                | (Inr _, w1) \<Rightarrow> print_line (OutputSavedTo (arg_output a)) w1)))"

text \<open>
  The handler, lines 112 to 114: it prints the exception and leaves with
  \<open>sys.exit(1)\<close>. When that \<open>print\<close> raises in its turn, nothing catches the new
  exception: the interpreter writes its traceback to standard error and the process ends
  with status 1 as well.
\<close>

definition except_handler :: "pyexn \<Rightarrow> world \<Rightarrow> nat \<times> world" where
  "except_handler e w =
     (case print_line (AnErrorOccurred e) w of
        (Inr _, w1) \<Rightarrow> (1, w1)
      | (Inl e', w1) \<Rightarrow> (1, w1\<lparr>stderr := stderr w1 @ [Traceback e']\<rparr>))"

text \<open>
  Every exception of the model is an \<open>Exception\<close>, so the handler catches whatever the
  \<open>try\<close> block raises. The result is the exit status of the process with what it
  printed and wrote: 0 when \<open>main\<close> returns.
\<close>

definition main :: "'doc backend \<Rightarrow> parse_args_result \<Rightarrow> world \<Rightarrow> nat \<times> world" where
  "main B cli w =
     (case cli of
        ArgumentError m \<Rightarrow> (2, w\<lparr>stderr := stderr w @ [Usage m]\<rparr>)
      | HelpRequested \<Rightarrow> (0, w\<lparr>stdout := stdout w @ [Help]\<rparr>)
      | Namespace a \<Rightarrow>
          (case try_block B a w of
             (Inr _, w1) \<Rightarrow> (0, w1)
           | (Inl e, w1) \<Rightarrow> except_handler e w1))"

section \<open>What the specification says of the written text\<close>

text \<open>
  Section 4.4 of the specification, in its own words: each page result is prefixed with
  the header \<open># Page <n>\<close>, where n is the page number from the metadata, and
  \<open>unknown\<close> when the metadata holds none; one blank line follows the header and one
  follows the body. These definitions are compared with the loop of
  \<open>save_markdown\<close> below.
\<close>

definition spec_page_label :: "page_dict \<Rightarrow> pystr" where
  "spec_page_label c =
     (case metadata c of
        Some (Dict m) \<Rightarrow> (case m (cps ''page'') of Some n \<Rightarrow> py_str n | None \<Rightarrow> cps ''unknown'')
      | _ \<Rightarrow> cps ''unknown'')"

definition spec_page_header :: "page_dict \<Rightarrow> pystr" where
  "spec_page_header c = cps ''# Page '' @ spec_page_label c"

definition spec_page_section :: "page_dict \<Rightarrow> pystr" where
  "spec_page_section c = spec_page_header c @ [10] @ [10] @ py_str (text_of c) @ [10] @ [10]"

text \<open>Python's \<open>needle in haystack\<close> on strings, as the tests use it.\<close>

fun contains :: "pystr \<Rightarrow> pystr \<Rightarrow> bool" where
  "contains [] needle = (needle = [])"
| "contains (c # s) needle = (take (length needle) (c # s) = needle \<or> contains s needle)"

section \<open>The extraction engine of the specification\<close>

text \<open>
  Modelled from the spec: the extraction engine behind \<open>fitz.open\<close> and
  \<open>pymupdf4llm.to_markdown\<close>, a third-party library whose code is not part of the
  repository. After sections 3, 4.4, 6 and 8 of the specification: a document is the
  ordered sequence of its pages, each given here by the Markdown emitted for it; the page
  selection is a set of 0-based indices, assembled in ascending index order; unchunked
  output is the concatenation of the selected pages, chunked output one record per
  selected page, whose metadata holds the 1-based page number. Image extraction is left
  out, so the file system comes back unchanged.
\<close>

type_synonym document = "pystr list"

definition spec_page_result :: "document \<Rightarrow> int \<Rightarrow> page_dict" where
  "spec_page_result doc p =
     \<lparr>metadata = Some (Dict [cps ''page'' \<mapsto> PInt (p + 1)]),
      page_text = Some (PStr (doc ! nat p))\<rparr>"

definition spec_selection :: "document \<Rightarrow> int list \<Rightarrow> int list" where
  "spec_selection doc ps = [p \<leftarrow> sort (remdups ps). 0 \<le> p \<and> p < int (length doc)]"

definition spec_to_markdown ::
  "document \<Rightarrow> int list \<Rightarrow> options \<Rightarrow> fs \<Rightarrow> (pystr + md_output) \<times> fs" where
  "spec_to_markdown doc ps opts fs =
     (if page_chunks opts
      then (Inr (MdChunks (map (spec_page_result doc) (spec_selection doc ps))), fs)
      else (Inr (MdStr (concat (map (\<lambda>p. doc ! nat p) (spec_selection doc ps)))), fs))"

definition spec_engine :: "(pystr \<Rightarrow> document option) \<Rightarrow> document backend" where
  "spec_engine docs =
     \<lparr>fitz_open = (\<lambda>fs pdf_path. case docs pdf_path of
                       None \<Rightarrow> Inl (cps ''cannot open document'')
                     | Some doc \<Rightarrow> Inr doc),
      page_count = length,
      to_markdown = spec_to_markdown\<rparr>"

section \<open>Example inputs\<close>

text \<open>The defaults of the command line, and the documents the repository's tests build.\<close>

definition default_options :: options where
  "default_options =
     \<lparr>write_images = False, image_path = cps ''images'', dpi = 150,
      image_format = cps ''png'', page_chunks = False\<rparr>"

definition chunk_options :: options where
  "chunk_options = default_options\<lparr>page_chunks := True\<rparr>"

definition three_pages :: document where
  "three_pages = [cps ''Page One Content'', cps ''Page Two Content'', cps ''Page Three Content'']"

definition two_pages :: document where
  "two_pages = [cps ''First page: Hello World!'', cps ''Second page: Goodbye World!'']"

definition test_docs :: "pystr \<Rightarrow> document option" where
  "test_docs = [cps ''selective.pdf'' \<mapsto> three_pages, cps ''multi_page.pdf'' \<mapsto> two_pages]"

definition root_fs :: fs where
  "root_fs = [[] \<mapsto> Dir]"

definition test_chunks :: "page_dict list" where
  "test_chunks =
     [\<lparr>metadata = Some (Dict [cps ''page'' \<mapsto> PInt 1]), page_text = Some (PStr (cps ''Page 1 content''))\<rparr>,
      \<lparr>metadata = Some (Dict Map.empty), page_text = Some (PStr (cps ''Page 2 content''))\<rparr>]"

definition out_md :: path where
  "out_md = [cps ''out'', cps ''output.md'']"

definition start_world :: world where
  "start_world = \<lparr>files = root_fs, stdout = [], stderr = []\<rparr>"

definition odd_md :: path where
  "odd_md = [cps ''out'', 0xDCFF # cps ''.md'']"

definition cli_args :: "pystr \<Rightarrow> int list option \<Rightarrow> bool \<Rightarrow> args" where
  "cli_args inp ps chunked =
     \<lparr>arg_input = inp, arg_output = out_md, arg_pages = ps,
      arg_options = default_options\<lparr>page_chunks := chunked\<rparr>\<rparr>"

section \<open>Page selection\<close>

lemmas example_defs =
  spec_engine_def spec_to_markdown_def spec_selection_def spec_page_result_def
  default_options_def chunk_options_def three_pages_def two_pages_def test_docs_def
  root_fs_def test_chunks_def out_md_def odd_md_def start_world_def cli_args_def

lemma open_selective:
  "fitz_open (spec_engine test_docs) fs (cps ''selective.pdf'') = Inr three_pages"
  by (simp add: spec_engine_def test_docs_def cps_def)

lemma open_multi_page:
  "fitz_open (spec_engine test_docs) fs (cps ''multi_page.pdf'') = Inr two_pages"
  by (simp add: spec_engine_def test_docs_def cps_def)

lemma page_count_examples:
  "page_count (spec_engine docs) three_pages = 3" "page_count (spec_engine docs) two_pages = 2"
  by (simp_all add: spec_engine_def three_pages_def two_pages_def)

text \<open>
  C1, as the claim states it, fails on an empty filter: no requested index is in bounds,
  yet the call does not raise. \<open>if pages:\<close> treats the empty list as no filter, and all
  three pages are extracted.
\<close>

theorem empty_filter_selects_all_counterexample:
  "filter (\<lambda>p. 0 \<le> p \<and> p < int (page_count (spec_engine test_docs) three_pages)) [] = []
   \<and> fst (parse_pdf_to_markdown (spec_engine test_docs) (cps ''selective.pdf'') (Some [])
            default_options root_fs)
       = Inr (MdStr (cps ''Page One ContentPage Two ContentPage Three Content''))"
  by (simp add: parse_pdf_to_markdown_def engine_result_def example_defs cps_def upt_conv_Cons)

text \<open>
  C1 (amended): for a non-empty filter, the indices outside \<open>0 \<le> p < total_pages\<close> are
  dropped without any error and the library is called with the remaining ones, in the
  caller's order; when none remains, the call raises \<open>NoValidPages\<close>, the library is not
  called and the file system is untouched.
\<close>

theorem out_of_bounds_pages_dropped:
  assumes "fitz_open B fs pdf_path = Inr doc" and "ps \<noteq> []"
  shows "parse_pdf_to_markdown B pdf_path (Some ps) opts fs =
           (if \<forall>p\<in>set ps. p < 0 \<or> int (page_count B doc) \<le> p
            then (Inl (NoValidPages (page_count B doc)), fs)
            else engine_result
                   (to_markdown B doc [p \<leftarrow> ps. 0 \<le> p \<and> p < int (page_count B doc)] opts fs))"
  using assms
  by (auto simp: parse_pdf_to_markdown_def Let_def filter_empty_conv)

theorem out_of_bounds_pages_dropped_witness:
  "fitz_open (spec_engine test_docs) root_fs (cps ''selective.pdf'') = Inr three_pages
   \<and> [50::int] \<noteq> [] \<and> [7, 1, -1::int] \<noteq> []
   \<and> parse_pdf_to_markdown (spec_engine test_docs) (cps ''selective.pdf'') (Some [50])
        default_options root_fs
      = (Inl (NoValidPages 3), root_fs)
   \<and> parse_pdf_to_markdown (spec_engine test_docs) (cps ''selective.pdf'') (Some [7, 1, -1])
        default_options root_fs
      = (Inr (MdStr (cps ''Page Two Content'')), root_fs)"
proof -
  have a: "[50::int] \<noteq> []" and b: "[7, 1, -1::int] \<noteq> []" by simp_all
  note o = open_selective [of root_fs]
  show ?thesis
    using out_of_bounds_pages_dropped [OF o a, of default_options]
          out_of_bounds_pages_dropped [OF o b, of default_options]
    by (simp add: engine_result_def example_defs cps_def)
qed

text \<open>
  C9: once the document is open, \<open>parse_pdf_to_markdown\<close> raises its empty-filter error
  exactly when \<open>pages\<close> is a non-empty list with no index in \<open>[0, total_pages)\<close>. With
  \<open>None\<close> and with the empty list it raises nothing of its own and asks the library for
  every page \<open>0, ..., total_pages - 1\<close>.
\<close>

theorem empty_filter_error_iff:
  assumes "fitz_open B fs pdf_path = Inr doc"
  shows "((\<exists>k. fst (parse_pdf_to_markdown B pdf_path pages opts fs) = Inl (NoValidPages k))
           \<longleftrightarrow> (\<exists>ps. pages = Some ps \<and> ps \<noteq> []
                    \<and> filter (\<lambda>p. 0 \<le> p \<and> p < int (page_count B doc)) ps = []))
       \<and> parse_pdf_to_markdown B pdf_path None opts fs
           = engine_result (to_markdown B doc (map int [0..<page_count B doc]) opts fs)
       \<and> parse_pdf_to_markdown B pdf_path (Some []) opts fs
           = engine_result (to_markdown B doc (map int [0..<page_count B doc]) opts fs)"
  using assms
  by (cases pages)
     (auto simp: parse_pdf_to_markdown_def engine_result_def Let_def split: sum.splits prod.splits)

theorem empty_filter_error_iff_witness:
  "fitz_open (spec_engine test_docs) root_fs (cps ''multi_page.pdf'') = Inr two_pages
   \<and> fst (parse_pdf_to_markdown (spec_engine test_docs) (cps ''multi_page.pdf'') (Some [2, -1])
            default_options root_fs) = Inl (NoValidPages 2)
   \<and> fst (parse_pdf_to_markdown (spec_engine test_docs) (cps ''multi_page.pdf'') None
            default_options root_fs)
       = Inr (MdStr (cps ''First page: Hello World!Second page: Goodbye World!''))
   \<and> fst (parse_pdf_to_markdown (spec_engine test_docs) (cps ''multi_page.pdf'') (Some [])
            default_options root_fs)
       = Inr (MdStr (cps ''First page: Hello World!Second page: Goodbye World!''))"
proof -
  note o = open_multi_page [of root_fs]
  have e: "\<exists>ps. Some [2, -1::int] = Some ps \<and> ps \<noteq> []
              \<and> filter (\<lambda>p. 0 \<le> p \<and> p < int (page_count (spec_engine test_docs) two_pages)) ps = []"
    by (simp add: page_count_examples)
  have "\<exists>k. fst (parse_pdf_to_markdown (spec_engine test_docs) (cps ''multi_page.pdf'')
                   (Some [2, -1]) default_options root_fs) = Inl (NoValidPages k)"
    using empty_filter_error_iff [OF o, of "Some [2, -1]" default_options] e by blast
  moreover have "fst (parse_pdf_to_markdown (spec_engine test_docs) (cps ''multi_page.pdf'')
                   (Some [2, -1]) default_options root_fs) = Inl (NoValidPages 2)"
    by (simp add: parse_pdf_to_markdown_def example_defs cps_def)
  ultimately show ?thesis
    using empty_filter_error_iff [OF o, of None default_options]
    by (simp add: o engine_result_def example_defs cps_def upt_conv_Cons)
qed

section \<open>UTF-8 round trip\<close>

lemma split3: "c div 4096 * 4096 + c div 64 mod 64 * 64 + c mod 64 = (c::nat)"
proof -
  have a: "c div 4096 = c div 64 div 64" by (simp add: div_mult2_eq[symmetric])
  have "(c div 64 div 64 * 64 + c div 64 mod 64) * 64 + c mod 64 = c" by simp
  then have "c div 64 div 64 * 4096 + c div 64 mod 64 * 64 + c mod 64 = c"
    by (simp only: add_mult_distrib mult.assoc)
  then show ?thesis by (simp only: a)
qed

lemma split4:
  "c div 262144 * 262144 + c div 4096 mod 64 * 4096 + c div 64 mod 64 * 64 + c mod 64 = (c::nat)"
proof -
  have a: "c div 262144 = c div 4096 div 64" by (simp add: div_mult2_eq[symmetric])
  have "c div 4096 div 64 * 64 + c div 4096 mod 64 = c div 4096" by simp
  then have "(c div 4096 div 64 * 64 + c div 4096 mod 64) * 4096 = c div 4096 * 4096" by simp
  then have "c div 4096 div 64 * 262144 + c div 4096 mod 64 * 4096 = c div 4096 * 4096"
    by (simp only: add_mult_distrib mult.assoc)
  with split3[of c] show ?thesis by (simp only: a)
qed

lemma decode2:
  assumes "0x80 \<le> c" "c < 0x800"
  shows "utf8_decode ([0xC0 + c div 64, 0x80 + c mod 64] @ rest)
         = map_option ((#) c) (utf8_decode rest)"
proof -
  have 1: "2 \<le> c div 64" "c div 64 < 32" using assms by arith+
  have 2: "c div 64 * 64 + c mod 64 = c" by simp
  show ?thesis using 1 2 by (simp add: cont_def)
qed

lemma decode3:
  assumes "0x800 \<le> c" "c < 0x10000" "\<not> (0xD800 \<le> c \<and> c < 0xE000)"
  shows "utf8_decode ([0xE0 + c div 4096, 0x80 + c div 64 mod 64, 0x80 + c mod 64] @ rest)
         = map_option ((#) c) (utf8_decode rest)"
proof -
  have 1: "c div 4096 < 16" using assms by arith
  show ?thesis using 1 assms by (simp add: cont_def Let_def split3)
qed

lemma decode4:
  assumes "0x10000 \<le> c" "c < 0x110000"
  shows "utf8_decode ([0xF0 + c div 262144, 0x80 + c div 4096 mod 64, 0x80 + c div 64 mod 64,
                       0x80 + c mod 64] @ rest)
         = map_option ((#) c) (utf8_decode rest)"
proof -
  have 1: "c div 262144 < 5" using assms by arith
  show ?thesis using 1 assms by (simp add: cont_def Let_def split4)
qed

lemma utf8_decode_encode_cp:
  assumes "utf8_encode_cp c = Some bs"
  shows "utf8_decode (bs @ rest) = map_option ((#) c) (utf8_decode rest)"
proof -
  consider (one) "c < 0x80" "bs = [c]"
    | (two) "0x80 \<le> c" "c < 0x800" "bs = [0xC0 + c div 64, 0x80 + c mod 64]"
    | (three) "0x800 \<le> c" "c < 0x10000" "\<not> (0xD800 \<le> c \<and> c < 0xE000)"
        "bs = [0xE0 + c div 4096, 0x80 + c div 64 mod 64, 0x80 + c mod 64]"
    | (four) "0x10000 \<le> c" "c < 0x110000"
        "bs = [0xF0 + c div 262144, 0x80 + c div 4096 mod 64, 0x80 + c div 64 mod 64,
               0x80 + c mod 64]"
    using assms unfolding utf8_encode_cp_def by (auto split: if_splits)
  then show ?thesis
  proof cases
    case one
    then show ?thesis by simp
  next
    case two
    then show ?thesis using decode2 by blast
  next
    case three
    then show ?thesis using decode3 by blast
  next
    case four
    then show ?thesis using decode4 by blast
  qed
qed

lemma utf8_decode_encode: "utf8_encode s = Some bs \<Longrightarrow> utf8_decode bs = Some s"
proof (induction s arbitrary: bs)
  case Nil
  then show ?case by simp
next
  case (Cons c s)
  then obtain b1 b2 where e: "utf8_encode_cp c = Some b1" "utf8_encode s = Some b2" "bs = b1 @ b2"
    by (auto split: option.splits)
  with Cons.IH[of b2] show ?case by (simp add: utf8_decode_encode_cp)
qed

lemma utf8_encode_bytes: "utf8_encode s = Some bs \<Longrightarrow> b \<in> set bs \<Longrightarrow> b < 256"
proof (induction s arbitrary: bs)
  case Nil
  then show ?case by simp
next
  case (Cons c s)
  then obtain b1 b2 where e: "utf8_encode_cp c = Some b1" "utf8_encode s = Some b2" "bs = b1 @ b2"
    by (auto split: option.splits)
  have "\<forall>x\<in>set b1. x < 256"
    using e(1) unfolding utf8_encode_cp_def by (auto split: if_splits)
  with Cons.IH[OF e(2)] Cons.prems(2) e(3) show ?case by auto
qed

section \<open>The concatenation loop\<close>

lemma page_number_label:
  "page_number_of c = Inr v \<Longrightarrow> py_str v = spec_page_label c"
  by (auto simp: page_number_of_def spec_page_label_def split: option.splits pyval.splits)

lemma concat_pages_step:
  "page_number_of c = Inr v \<Longrightarrow>
     concat_pages (c # chunks) acc = concat_pages chunks (acc @ spec_page_section c)"
  by (simp add: spec_page_section_def spec_page_header_def page_number_label)

lemma concat_pages_sections:
  "concat_pages chunks acc = Inr full \<Longrightarrow> full = acc @ concat (map spec_page_section chunks)"
proof (induction chunks arbitrary: acc)
  case Nil
  then show ?case by simp
next
  case (Cons c chunks)
  from Cons.prems obtain v where v: "page_number_of c = Inr v"
    by (cases "page_number_of c") auto
  from Cons.prems have "concat_pages chunks (acc @ spec_page_section c) = Inr full"
    by (simp only: concat_pages_step [OF v])
  from Cons.IH [OF this] show ?case by simp
qed

lemma concat_pages_ok:
  "\<forall>c\<in>set chunks. \<forall>v. metadata c \<noteq> Some (Scalar v) \<Longrightarrow>
     concat_pages chunks acc = Inr (acc @ concat (map spec_page_section chunks))"
proof (induction chunks arbitrary: acc)
  case Nil
  then show ?case by simp
next
  case (Cons c chunks)
  from Cons.prems have "\<forall>v. metadata c \<noteq> Some (Scalar v)" by simp
  then have "\<exists>v. page_number_of c = Inr v"
    by (auto simp: page_number_of_def split: option.splits pyval.splits)
  then obtain v where v: "page_number_of c = Inr v" ..
  from Cons.prems have "\<forall>c\<in>set chunks. \<forall>v. metadata c \<noteq> Some (Scalar v)" by simp
  from Cons.IH [OF this, of "acc @ spec_page_section c"] show ?case
    by (simp only: concat_pages_step [OF v]) simp
qed

section \<open>Directories and the written file\<close>

lemma parent_neq: "p \<noteq> [] \<Longrightarrow> parent p \<noteq> p"
  by (metis parent_def length_butlast diff_less length_greater_0_conv less_irrefl zero_less_one)

lemma ancestors_shorter: "q \<in> set (ancestors p) \<Longrightarrow> length q < length p"
  by (induction p arbitrary: q) auto

lemma not_in_parent_chain:
  "p \<noteq> [] \<Longrightarrow> p \<noteq> parent p \<and> p \<notin> set (ancestors (parent p))"
  using ancestors_shorter [of p "parent p"] parent_neq [of p]
  by (auto simp: parent_def)

lemma mkdir_parents_ok:
  assumes "mkdir_parents d fs = (Inr u, fs1)"
  shows "fs1 d = Some Dir" and "q \<in> set (ancestors d) \<Longrightarrow> fs1 q = Some Dir"
    and "q \<noteq> d \<Longrightarrow> q \<notin> set (ancestors d) \<Longrightarrow> fs1 q = fs q"
proof -
  have nf: "\<not> is_file (fs d)" "\<forall>q\<in>set (ancestors d). \<not> is_file (fs q)"
    and fs1: "fs1 = (\<lambda>q. if (q = d \<or> q \<in> set (ancestors d)) \<and> fs q = None then Some Dir else fs q)"
    using assms by (auto simp: mkdir_parents_def list_ex_iff split: if_splits)
  have dir: "\<not> is_file x \<Longrightarrow> x \<noteq> None \<Longrightarrow> x = Some Dir" for x
    by (cases x rule: is_file.cases) auto
  show "fs1 d = Some Dir" using nf(1) dir [of "fs d"] by (auto simp: fs1)
  show "q \<in> set (ancestors d) \<Longrightarrow> fs1 q = Some Dir" using nf(2) dir [of "fs q"] by (auto simp: fs1)
  show "q \<noteq> d \<Longrightarrow> q \<notin> set (ancestors d) \<Longrightarrow> fs1 q = fs q" by (simp add: fs1)
qed

lemma mkdir_parents_err:
  "mkdir_parents d fs = (Inl e, fs1) \<Longrightarrow> fs1 = fs"
  by (auto simp: mkdir_parents_def split: if_splits)

lemma write_text_ok:
  assumes "write_text p data fs1 = (Inr u, fs')"
  shows "\<exists>s bs. data = MdStr s \<and> utf8_encode s = Some bs \<and> fs' = fs1(p \<mapsto> File bs)
          \<and> fs1 p \<noteq> Some Dir \<and> fs1 (parent p) = Some Dir"
  using assms
  by (auto simp: write_text_def split: md_output.splits if_splits option.splits node.splits)

lemma write_text_frame:
  "write_text p data fs1 = (r, fs') \<Longrightarrow> q \<noteq> p \<Longrightarrow> fs' q = fs1 q"
  by (auto simp: write_text_def split: md_output.splits if_splits option.splits node.splits)

lemma write_text_dir:
  "write_text p data fs1 = (r, fs') \<Longrightarrow> fs1 p = Some Dir \<Longrightarrow> fs' = fs1"
  by (auto simp: write_text_def split: md_output.splits if_splits option.splits node.splits)

lemma save_markdown_cases:
  assumes "save_markdown md p flag fs = (r, fs')"
  obtains (mkdir_failed) e where "mkdir_parents (parent p) fs = (Inl e, fs')" "r = Inl e"
  | (concat_failed) u cs e where "mkdir_parents (parent p) fs = (Inr u, fs')" "flag"
      "md = MdChunks cs" "concat_pages cs [] = Inl e" "r = Inl e"
  | (concatenated) u fs1 cs full where "mkdir_parents (parent p) fs = (Inr u, fs1)" "flag"
      "md = MdChunks cs" "concat_pages cs [] = Inr full"
      "write_text p (MdStr full) fs1 = (r, fs')"
  | (direct) u fs1 where "mkdir_parents (parent p) fs = (Inr u, fs1)"
      "\<not> flag \<or> (\<exists>s. md = MdStr s)" "write_text p md fs1 = (r, fs')"
proof (cases "mkdir_parents (parent p) fs")
  case (Pair r1 fs1)
  show ?thesis
  proof (cases r1)
    case (Inl e)
    with Pair assms have "r = Inl e" "fs' = fs1" by (simp_all add: save_markdown_def)
    with Pair Inl mkdir_failed [of e] show ?thesis by simp
  next
    case (Inr u)
    show ?thesis
    proof (cases "flag \<and> is_list md")
      case True
      then obtain cs where cs: "md = MdChunks cs" by (cases md) auto
      show ?thesis
      proof (cases "concat_pages cs []")
        case (Inl e)
        with Pair Inr True cs assms have "r = Inl e" "fs' = fs1"
          by (simp_all add: save_markdown_def)
        with Pair Inr True cs Inl concat_failed [of u cs e] show ?thesis by simp
      next
        case full: (Inr full)
        with Pair Inr True cs assms have "write_text p (MdStr full) fs1 = (r, fs')"
          by (simp add: save_markdown_def)
        with Pair Inr True cs full concatenated [of u fs1 cs full] show ?thesis by simp
      qed
    next
      case False
      then have nl: "\<not> flag \<or> (\<exists>s. md = MdStr s)" by (cases md) auto
      from Pair Inr False assms have "write_text p md fs1 = (r, fs')"
        by (auto simp: save_markdown_def)
      with Pair Inr nl direct [of u fs1] show ?thesis by simp
    qed
  qed
qed

lemma save_markdown_written:
  assumes "save_markdown md p flag fs = (Inr u, fs')"
  shows "\<exists>full bs. (md = MdStr full \<or> (flag \<and> (\<exists>cs. md = MdChunks cs \<and> concat_pages cs [] = Inr full)))
           \<and> utf8_encode full = Some bs \<and> fs' p = Some (File bs) \<and> file_text fs' p = Some full"
  using assms
proof (cases rule: save_markdown_cases)
  case (concatenated u' fs1 cs full)
  from write_text_ok [OF concatenated(5)] obtain bs where
    "utf8_encode full = Some bs" "fs' = fs1(p \<mapsto> File bs)" by auto
  with concatenated show ?thesis by (auto simp: file_text_def utf8_decode_encode)
next
  case (direct u' fs1)
  from write_text_ok [OF direct(3)] obtain s bs where
    "md = MdStr s" "utf8_encode s = Some bs" "fs' = fs1(p \<mapsto> File bs)" by auto
  then show ?thesis by (auto simp: file_text_def utf8_decode_encode)
qed simp_all

lemma save_markdown_chunks_text:
  assumes "save_markdown (MdChunks chunks) p flag fs = (Inr u, fs')"
  shows "file_text fs' p = Some (concat (map spec_page_section chunks))"
proof -
  from save_markdown_written [OF assms] obtain full where
    "concat_pages chunks [] = Inr full" "file_text fs' p = Some full" by auto
  with concat_pages_sections [of chunks "[]" full] show ?thesis by simp
qed

section \<open>Properties of \<open>save_markdown\<close>\<close>

lemma utf8_encode_ascii: "\<forall>c\<in>set s. c < 0x80 \<Longrightarrow> utf8_encode s = Some s"
  by (induction s) (simp_all add: utf8_encode_cp_def)

lemma save_markdown_result:
  "save_markdown md p flag fs = (fst (save_markdown md p flag fs), snd (save_markdown md p flag fs))"
  by simp

lemmas save_defs =
  save_markdown_def mkdir_parents_def write_text_def parent_def page_number_of_def text_of_def
  utf8_encode_cp_def str_int_def digits.simps

lemma test_chunks_saved:
  "fst (save_markdown (MdChunks test_chunks) out_md True root_fs) = Inr ()"
  by (simp add: save_defs example_defs cps_def)

text \<open>
  C2: when \<open>save_markdown\<close> has written chunked output, the body of every record stands
  in the written text right after the line \<open># Page label\<close> and a blank line, where the
  label is \<open>str\<close> of the page number found in the record's metadata mapping (the decimal
  numeral of an \<open>int\<close>), and \<open>unknown\<close> when the record has no metadata or its metadata
  has no page number.
\<close>

theorem chunk_page_headers:
  assumes "save_markdown (MdChunks chunks) output_path flag fs = (Inr (), fs')"
    and "i < length chunks"
  shows "\<exists>label.
           file_text fs' output_path =
             Some (concat (map spec_page_section (take i chunks))
                   @ cps ''# Page '' @ label @ [10, 10] @ py_str (text_of (chunks ! i)) @ [10, 10]
                   @ concat (map spec_page_section (drop (Suc i) chunks)))
         \<and> (\<forall>m v. metadata (chunks ! i) = Some (Dict m) \<and> m (cps ''page'') = Some v
                \<longrightarrow> label = py_str v)
         \<and> (\<forall>m n. metadata (chunks ! i) = Some (Dict m) \<and> m (cps ''page'') = Some (PInt n)
                \<longrightarrow> label = str_int n)
         \<and> (metadata (chunks ! i) = None
              \<or> (\<exists>m. metadata (chunks ! i) = Some (Dict m) \<and> m (cps ''page'') = None)
                \<longrightarrow> label = cps ''unknown'')"
proof -
  have split: "chunks = take i chunks @ chunks ! i # drop (Suc i) chunks"
    using assms(2) by (rule id_take_nth_drop)
  have "concat (map spec_page_section chunks) =
          concat (map spec_page_section (take i chunks))
          @ spec_page_section (chunks ! i)
          @ concat (map spec_page_section (drop (Suc i) chunks))"
    by (subst split) simp
  with save_markdown_chunks_text [OF assms(1)]
  have "file_text fs' output_path =
          Some (concat (map spec_page_section (take i chunks))
                @ cps ''# Page '' @ spec_page_label (chunks ! i) @ [10, 10]
                @ py_str (text_of (chunks ! i)) @ [10, 10]
                @ concat (map spec_page_section (drop (Suc i) chunks)))"
    by (simp add: spec_page_section_def spec_page_header_def)
  moreover have "\<forall>m v. metadata (chunks ! i) = Some (Dict m) \<and> m (cps ''page'') = Some v
                   \<longrightarrow> spec_page_label (chunks ! i) = py_str v"
    by (simp add: spec_page_label_def)
  moreover have "\<forall>m n. metadata (chunks ! i) = Some (Dict m) \<and> m (cps ''page'') = Some (PInt n)
                   \<longrightarrow> spec_page_label (chunks ! i) = str_int n"
    by (simp add: spec_page_label_def)
  moreover have "metadata (chunks ! i) = None
                  \<or> (\<exists>m. metadata (chunks ! i) = Some (Dict m) \<and> m (cps ''page'') = None)
                   \<longrightarrow> spec_page_label (chunks ! i) = cps ''unknown''"
    by (auto simp: spec_page_label_def)
  ultimately show ?thesis by blast
qed

theorem chunk_page_headers_witness:
  "fst (save_markdown (MdChunks test_chunks) out_md True root_fs) = Inr ()
   \<and> (1::nat) < length test_chunks
   \<and> file_text (snd (save_markdown (MdChunks test_chunks) out_md True root_fs)) out_md =
       Some (cps ''# Page 1'' @ [10, 10] @ cps ''Page 1 content'' @ [10, 10]
             @ cps ''# Page unknown'' @ [10, 10] @ cps ''Page 2 content'' @ [10, 10])"
proof -
  let ?fs' = "snd (save_markdown (MdChunks test_chunks) out_md True root_fs)"
  have ok: "save_markdown (MdChunks test_chunks) out_md True root_fs = (Inr (), ?fs')"
    using test_chunks_saved save_markdown_result [of "MdChunks test_chunks" out_md True root_fs]
    by simp
  have len: "1 < length test_chunks" by (simp add: test_chunks_def)
  have m: "metadata (test_chunks ! 1) = Some (Dict Map.empty)"
    by (simp add: test_chunks_def)
  from chunk_page_headers [OF ok len] obtain label where
    t: "file_text ?fs' out_md =
          Some (concat (map spec_page_section (take 1 test_chunks))
                @ cps ''# Page '' @ label @ [10, 10] @ py_str (text_of (test_chunks ! 1)) @ [10, 10]
                @ concat (map spec_page_section (drop (Suc 1) test_chunks)))"
    and u: "metadata (test_chunks ! 1) = None
              \<or> (\<exists>m. metadata (test_chunks ! 1) = Some (Dict m) \<and> m (cps ''page'') = None)
            \<longrightarrow> label = cps ''unknown''"
    by blast
  from u m have "label = cps ''unknown''" by simp
  with t have "file_text ?fs' out_md =
       Some (cps ''# Page 1'' @ [10, 10] @ cps ''Page 1 content'' @ [10, 10]
             @ cps ''# Page unknown'' @ [10, 10] @ cps ''Page 2 content'' @ [10, 10])"
    by (simp add: test_chunks_def spec_page_section_def spec_page_header_def spec_page_label_def
          text_of_def str_int_def digits.simps cps_def)
  with test_chunks_saved len show ?thesis by simp
qed

text \<open>
  C3: the text written for chunked output is the concatenation, in the order of the
  records, of one section per record: the header line \<open># Page k\<close>, a blank line, the
  record's body, a newline and exactly one blank line.
\<close>

theorem chunk_sections_in_order:
  assumes "save_markdown (MdChunks chunks) output_path flag fs = (Inr (), fs')"
  shows "file_text fs' output_path =
           Some (concat (map (\<lambda>c. cps ''# Page '' @ spec_page_label c @ [10] @ [10]
                                   @ py_str (text_of c) @ [10] @ [10]) chunks))"
proof -
  have "spec_page_section = (\<lambda>c. cps ''# Page '' @ spec_page_label c @ [10] @ [10]
                                   @ py_str (text_of c) @ [10] @ [10])"
    by (rule ext) (simp add: spec_page_section_def spec_page_header_def)
  with save_markdown_chunks_text [OF assms] show ?thesis by simp
qed

theorem chunk_sections_in_order_witness:
  "fst (save_markdown (MdChunks (rev test_chunks)) out_md True root_fs) = Inr ()
   \<and> file_text (snd (save_markdown (MdChunks (rev test_chunks)) out_md True root_fs)) out_md =
       Some (cps ''# Page unknown'' @ [10] @ [10] @ cps ''Page 2 content'' @ [10] @ [10]
             @ cps ''# Page 1'' @ [10] @ [10] @ cps ''Page 1 content'' @ [10] @ [10])"
proof -
  let ?fs' = "snd (save_markdown (MdChunks (rev test_chunks)) out_md True root_fs)"
  have saved: "fst (save_markdown (MdChunks (rev test_chunks)) out_md True root_fs) = Inr ()"
    by (simp add: save_defs example_defs cps_def)
  then have ok: "save_markdown (MdChunks (rev test_chunks)) out_md True root_fs = (Inr (), ?fs')"
    using save_markdown_result [of "MdChunks (rev test_chunks)" out_md True root_fs] by simp
  from chunk_sections_in_order [OF ok] saved show ?thesis
    by (simp add: test_chunks_def spec_page_label_def text_of_def str_int_def digits.simps cps_def)
qed

text \<open>
  C4, as the claim states it, fails for a list given without the \<open>page_chunks\<close> flag
  (the flag's default): the list goes to \<open>write_text\<close> as it is, which raises
  \<open>TypeError\<close>, and no file is written.
\<close>

theorem list_without_flag_not_written_counterexample:
  "is_list (MdChunks test_chunks)
   \<and> fst (save_markdown (MdChunks test_chunks) out_md False root_fs) = Inl TypeError
   \<and> snd (save_markdown (MdChunks test_chunks) out_md False root_fs) out_md = None"
  by (simp add: save_defs example_defs cps_def)

text \<open>
  C4 (amended): for every output value and destination, \<open>save_markdown\<close> first creates
  the destination's parent directory and all directories above it; when a regular file
  stands in the place of one of them it raises instead and changes nothing. When it
  returns normally, the destination holds the UTF-8 encoding of the text: of the string it
  was given, or, when \<open>page_chunks\<close> is true and the output is a list, of the
  concatenation of the records by the header rule. A list given with \<open>page_chunks\<close>
  false is not concatenated: the call raises (\<open>TypeError\<close> once the directories exist)
  and the destination is left as it was.
\<close>

theorem save_markdown_creates_and_writes:
  assumes "save_markdown md_output output_path flag fs = (r, fs')"
  shows "(list_ex (\<lambda>q. is_file (fs q)) (ancestors (parent output_path))
            \<or> is_file (fs (parent output_path))
          \<longrightarrow> fs' = fs
              \<and> (r = Inl (NotADirectoryError (parent output_path))
                  \<or> r = Inl (FileExistsError (parent output_path))))
       \<and> (\<not> list_ex (\<lambda>q. is_file (fs q)) (ancestors (parent output_path))
            \<and> \<not> is_file (fs (parent output_path))
          \<longrightarrow> fs' (parent output_path) = Some Dir
              \<and> (\<forall>q\<in>set (ancestors (parent output_path)). fs' q = Some Dir))
       \<and> (r = Inr ()
          \<longrightarrow> fs' (parent output_path) = Some Dir
              \<and> (\<exists>written bs.
                    utf8_encode written = Some bs \<and> fs' output_path = Some (File bs)
                    \<and> (md_output = MdStr written
                        \<or> flag \<and> (\<exists>chunks. md_output = MdChunks chunks
                                      \<and> written = concat (map spec_page_section chunks)))))
       \<and> (is_list md_output \<and> \<not> flag
          \<longrightarrow> r \<noteq> Inr ()
              \<and> (\<not> list_ex (\<lambda>q. is_file (fs q)) (ancestors (parent output_path))
                    \<and> \<not> is_file (fs (parent output_path)) \<longrightarrow> r = Inl TypeError)
              \<and> (output_path \<noteq> [] \<longrightarrow> fs' output_path = fs output_path)
              \<and> (\<forall>bs. fs' output_path = Some (File bs) \<longrightarrow> fs output_path = Some (File bs)))"
proof -
  let ?d = "parent output_path"
  let ?blocked = "list_ex (\<lambda>q. is_file (fs q)) (ancestors ?d) \<or> is_file (fs ?d)"
  have frame: "fs' q = fs1 q"
    if mk: "mkdir_parents ?d fs = (Inr u, fs1)" and w: "write_text output_path data fs1 = (r, fs')"
      and q: "q = ?d \<or> q \<in> set (ancestors ?d)" for u fs1 data q
  proof (cases "output_path = []")
    case True
    then have "fs1 output_path = Some Dir" using mkdir_parents_ok(1) [OF mk] by (simp add: parent_def)
    with write_text_dir [OF w] show ?thesis by simp
  next
    case False
    with not_in_parent_chain [of output_path] q have "q \<noteq> output_path" by auto
    with write_text_frame [OF w] show ?thesis by simp
  qed
  have dirs: "fs' ?d = Some Dir \<and> (\<forall>q\<in>set (ancestors ?d). fs' q = Some Dir)"
    if mk: "mkdir_parents ?d fs = (Inr u, fs1)"
      and w: "fs' = fs1 \<or> (\<exists>data. write_text output_path data fs1 = (r, fs'))" for u fs1
    using mkdir_parents_ok(1,2) [OF mk] frame [OF mk] w by auto
  have mk_blocked: "mkdir_parents ?d fs = (Inl (NotADirectoryError ?d), fs)
                    \<or> mkdir_parents ?d fs = (Inl (FileExistsError ?d), fs)"
    if ?blocked
    using that by (auto simp: mkdir_parents_def)
  have mk_free: "\<exists>fs1. mkdir_parents ?d fs = (Inr (), fs1)" if "\<not> ?blocked"
    using that by (auto simp: mkdir_parents_def)
  have blocked: "fs' = fs \<and> (r = Inl (NotADirectoryError ?d) \<or> r = Inl (FileExistsError ?d))"
    if ?blocked
    using assms mk_blocked [OF that] by (auto simp: save_markdown_def)
  have created: "fs' ?d = Some Dir \<and> (\<forall>q\<in>set (ancestors ?d). fs' q = Some Dir)"
    if "\<not> ?blocked"
    using assms
  proof (cases rule: save_markdown_cases)
    case (mkdir_failed e)
    with mk_free [OF that] show ?thesis by auto
  next
    case (concat_failed u cs e)
    with dirs show ?thesis by blast
  next
    case (concatenated u fs1 cs full)
    with dirs show ?thesis by blast
  next
    case (direct u fs1)
    with dirs show ?thesis by blast
  qed
  have written: "fs' ?d = Some Dir
      \<and> (\<exists>written bs. utf8_encode written = Some bs \<and> fs' output_path = Some (File bs)
            \<and> (md_output = MdStr written
                \<or> flag \<and> (\<exists>chunks. md_output = MdChunks chunks
                              \<and> written = concat (map spec_page_section chunks))))"
    if r: "r = Inr ()"
  proof -
    from assms r have ok: "save_markdown md_output output_path flag fs = (Inr (), fs')" by simp
    from save_markdown_written [OF ok] obtain full bs where
      f: "md_output = MdStr full \<or> flag \<and> (\<exists>cs. md_output = MdChunks cs \<and> concat_pages cs [] = Inr full)"
      and e: "utf8_encode full = Some bs" "fs' output_path = Some (File bs)"
      by blast
    from f have "md_output = MdStr full
                \<or> flag \<and> (\<exists>chunks. md_output = MdChunks chunks
                              \<and> full = concat (map spec_page_section chunks))"
      using concat_pages_sections [of _ "[]" full] by auto
    moreover from assms have "fs' ?d = Some Dir"
    proof (cases rule: save_markdown_cases)
      case (concatenated u fs1 cs full)
      with dirs show ?thesis by blast
    next
      case (direct u fs1)
      with dirs show ?thesis by blast
    qed (use r in simp_all)
    ultimately show ?thesis using e by blast
  qed
  have refused: "r \<noteq> Inr ()
      \<and> (\<not> ?blocked \<longrightarrow> r = Inl TypeError)
      \<and> (output_path \<noteq> [] \<longrightarrow> fs' output_path = fs output_path)
      \<and> (\<forall>bs. fs' output_path = Some (File bs) \<longrightarrow> fs output_path = Some (File bs))"
    if l: "is_list md_output" "\<not> flag"
    using assms
  proof (cases rule: save_markdown_cases)
    case (mkdir_failed e)
    from mkdir_failed(1) have "fs' = fs" by (rule mkdir_parents_err)
    with mkdir_failed mk_free show ?thesis by auto
  next
    case (direct u fs1)
    from l direct(3) have te: "r = Inl TypeError" "fs' = fs1"
      by (cases md_output; simp add: write_text_def)+
    have same: "fs1 output_path = fs output_path" if "output_path \<noteq> []"
      using not_in_parent_chain [OF that] mkdir_parents_ok(3) [OF direct(1), of output_path]
      by simp
    have "fs1 output_path = Some Dir" if "output_path = []"
      using that mkdir_parents_ok(1) [OF direct(1)] by (simp add: parent_def)
    with same te show ?thesis by (cases "output_path = []") auto
  qed (use l in auto)
  from blocked created written refused show ?thesis by blast
qed

theorem save_markdown_creates_and_writes_witness:
  "fst (save_markdown (MdChunks test_chunks) out_md True root_fs) = Inr ()
   \<and> snd (save_markdown (MdChunks test_chunks) out_md True root_fs) [cps ''out''] = Some Dir
   \<and> snd (save_markdown (MdChunks test_chunks) out_md True root_fs) out_md =
       Some (File (cps ''# Page 1'' @ [10, 10] @ cps ''Page 1 content'' @ [10, 10]
                   @ cps ''# Page unknown'' @ [10, 10] @ cps ''Page 2 content'' @ [10, 10]))
   \<and> is_file ((root_fs([cps ''out''] \<mapsto> File [])) (parent out_md))
   \<and> save_markdown (MdStr (cps ''text'')) out_md False (root_fs([cps ''out''] \<mapsto> File []))
       = (Inl (FileExistsError [cps ''out'']), root_fs([cps ''out''] \<mapsto> File []))
   \<and> is_list (MdChunks test_chunks)
   \<and> save_markdown (MdChunks test_chunks) out_md False root_fs
       = (Inl TypeError, snd (save_markdown (MdChunks test_chunks) out_md False root_fs))
   \<and> snd (save_markdown (MdChunks test_chunks) out_md False root_fs) out_md = root_fs out_md"
proof -
  let ?fs' = "snd (save_markdown (MdChunks test_chunks) out_md True root_fs)"
  have ok: "save_markdown (MdChunks test_chunks) out_md True root_fs = (Inr (), ?fs')"
    using test_chunks_saved save_markdown_result [of "MdChunks test_chunks" out_md True root_fs]
    by simp
  from save_markdown_creates_and_writes [OF ok]
  have d: "?fs' (parent out_md) = Some Dir"
    and "\<exists>written bs. utf8_encode written = Some bs \<and> ?fs' out_md = Some (File bs)
            \<and> written = concat (map spec_page_section test_chunks)"
    by auto
  then obtain bs where
    bs: "utf8_encode (concat (map spec_page_section test_chunks)) = Some bs"
        "?fs' out_md = Some (File bs)"
    by blast
  have "concat (map spec_page_section test_chunks) =
          cps ''# Page 1'' @ [10, 10] @ cps ''Page 1 content'' @ [10, 10]
          @ cps ''# Page unknown'' @ [10, 10] @ cps ''Page 2 content'' @ [10, 10]"
    by (simp add: test_chunks_def spec_page_section_def spec_page_header_def spec_page_label_def
          text_of_def str_int_def digits.simps cps_def)
  moreover have "utf8_encode (cps ''# Page 1'' @ [10, 10] @ cps ''Page 1 content'' @ [10, 10]
          @ cps ''# Page unknown'' @ [10, 10] @ cps ''Page 2 content'' @ [10, 10])
       = Some (cps ''# Page 1'' @ [10, 10] @ cps ''Page 1 content'' @ [10, 10]
          @ cps ''# Page unknown'' @ [10, 10] @ cps ''Page 2 content'' @ [10, 10])"
    by (rule utf8_encode_ascii) (simp add: cps_def)
  ultimately have "bs = cps ''# Page 1'' @ [10, 10] @ cps ''Page 1 content'' @ [10, 10]
          @ cps ''# Page unknown'' @ [10, 10] @ cps ''Page 2 content'' @ [10, 10]"
    using bs(1) by simp
  with bs(2) d test_chunks_saved have first:
    "fst (save_markdown (MdChunks test_chunks) out_md True root_fs) = Inr ()
     \<and> ?fs' [cps ''out''] = Some Dir
     \<and> ?fs' out_md = Some (File (cps ''# Page 1'' @ [10, 10] @ cps ''Page 1 content'' @ [10, 10]
                   @ cps ''# Page unknown'' @ [10, 10] @ cps ''Page 2 content'' @ [10, 10]))"
    by (simp add: parent_def out_md_def)
  let ?blocked_fs = "root_fs([cps ''out''] \<mapsto> File [])"
  let ?rb = "save_markdown (MdStr (cps ''text'')) out_md False ?blocked_fs"
  have f: "is_file (?blocked_fs (parent out_md))"
    by (simp add: parent_def out_md_def)
  note blocked = save_markdown_creates_and_writes
         [OF save_markdown_result [of "MdStr (cps ''text'')" out_md False ?blocked_fs],
          THEN conjunct1, rule_format]
  from f have b: "snd ?rb = ?blocked_fs
        \<and> (fst ?rb = Inl (NotADirectoryError (parent out_md))
            \<or> fst ?rb = Inl (FileExistsError (parent out_md)))"
    by (intro blocked disjI2)
  have "fst ?rb \<noteq> Inl (NotADirectoryError (parent out_md))"
    by (simp add: save_defs example_defs cps_def)
  with b have "fst ?rb = Inl (FileExistsError (parent out_md))" by blast
  moreover have "parent out_md = [cps ''out'']" by (simp add: parent_def out_md_def)
  ultimately have second: "?rb = (Inl (FileExistsError [cps ''out'']), ?blocked_fs)"
    using b save_markdown_result [of "MdStr (cps ''text'')" out_md False ?blocked_fs]
    by (simp only:)
  let ?rl = "save_markdown (MdChunks test_chunks) out_md False root_fs"
  have free: "\<not> list_ex (\<lambda>q. is_file (root_fs q)) (ancestors (parent out_md))
              \<and> \<not> is_file (root_fs (parent out_md))"
    by (simp add: parent_def out_md_def root_fs_def)
  have l: "is_list (MdChunks test_chunks)" "out_md \<noteq> []" by (simp_all add: out_md_def)
  have nf: "is_list (MdChunks test_chunks) \<and> \<not> False" by simp
  note refused = save_markdown_creates_and_writes
         [OF save_markdown_result [of "MdChunks test_chunks" out_md False root_fs],
          THEN conjunct2, THEN conjunct2, THEN conjunct2, THEN mp, OF nf]
  from refused free have "fst ?rl = Inl TypeError" by blast
  moreover from refused l(2) have t2: "snd ?rl out_md = root_fs out_md" by blast
  ultimately have third: "?rl = (Inl TypeError, snd ?rl)" "snd ?rl out_md = root_fs out_md"
    using save_markdown_result [of "MdChunks test_chunks" out_md False root_fs]
    by (simp_all only:)
  from first f second l(1) third show ?thesis by blast
qed

lemma save_markdown_str_ok:
  assumes "utf8_encode s = Some bs" and "output_path \<noteq> []" and "fs output_path \<noteq> Some Dir"
    and "\<not> list_ex (\<lambda>q. is_file (fs q)) (ancestors (parent output_path))"
    and "\<not> is_file (fs (parent output_path))"
  shows "fst (save_markdown (MdStr s) output_path flag fs) = Inr ()"
proof -
  obtain fs1 where mk: "mkdir_parents (parent output_path) fs = (Inr (), fs1)"
    using assms(4,5) by (simp add: mkdir_parents_def)
  from not_in_parent_chain [OF assms(2)] mkdir_parents_ok(3) [OF mk, of output_path]
  have "fs1 output_path = fs output_path" by simp
  with assms(3) mkdir_parents_ok(1) [OF mk] assms(1) mk show ?thesis
    by (simp add: save_markdown_def write_text_def)
qed

text \<open>
  C10: a plain string is handled the same way with and without the \<open>page_chunks\<close> flag.
  It is written whenever it can be encoded, the destination is no directory and no regular
  file stands in the way of the parent directories; when \<open>save_markdown\<close> returns
  normally, the destination holds the string's UTF-8 encoding, which decodes to the string
  itself. A list is concatenated only with the flag set: without it the call ends in
  \<open>TypeError\<close> once the directories exist, and never returns normally.
\<close>

theorem plain_string_written_verbatim:
  "save_markdown (MdStr s) output_path True fs = save_markdown (MdStr s) output_path False fs
   \<and> (utf8_encode s \<noteq> None \<and> output_path \<noteq> [] \<and> fs output_path \<noteq> Some Dir
        \<and> \<not> list_ex (\<lambda>q. is_file (fs q)) (ancestors (parent output_path))
        \<and> \<not> is_file (fs (parent output_path))
       \<longrightarrow> fst (save_markdown (MdStr s) output_path flag fs) = Inr ())
   \<and> (save_markdown (MdStr s) output_path flag fs = (Inr (), fs')
       \<longrightarrow> (\<exists>bs. utf8_encode s = Some bs \<and> fs' output_path = Some (File bs))
           \<and> file_text fs' output_path = Some s)
   \<and> (save_markdown (MdChunks chunks) output_path flag fs = (Inr (), fs') \<longrightarrow> flag)
   \<and> (\<forall>u fs1. mkdir_parents (parent output_path) fs = (Inr u, fs1)
         \<longrightarrow> save_markdown (MdChunks chunks) output_path False fs = (Inl TypeError, fs1))"
proof -
  have a: "save_markdown (MdStr s) output_path True fs = save_markdown (MdStr s) output_path False fs"
    by (simp add: save_markdown_def split: prod.splits sum.splits)
  have b: "fst (save_markdown (MdStr s) output_path flag fs) = Inr ()"
    if "utf8_encode s \<noteq> None" "output_path \<noteq> []" "fs output_path \<noteq> Some Dir"
       "\<not> list_ex (\<lambda>q. is_file (fs q)) (ancestors (parent output_path))"
       "\<not> is_file (fs (parent output_path))"
    using that save_markdown_str_ok [of s _ output_path fs flag] by auto
  have c: "(\<exists>bs. utf8_encode s = Some bs \<and> fs' output_path = Some (File bs))
           \<and> file_text fs' output_path = Some s"
    if "save_markdown (MdStr s) output_path flag fs = (Inr (), fs')"
    using save_markdown_written [OF that] by auto
  have d: "flag" if "save_markdown (MdChunks chunks) output_path flag fs = (Inr (), fs')"
    using save_markdown_written [OF that] by auto
  have e: "save_markdown (MdChunks chunks) output_path False fs = (Inl TypeError, fs1)"
    if "mkdir_parents (parent output_path) fs = (Inr u, fs1)" for u fs1
    using that by (simp add: save_markdown_def write_text_def)
  from a b c d e show ?thesis by blast
qed

theorem plain_string_written_verbatim_witness:
  "utf8_encode (cps ''# Test Markdown'' @ [10] @ cps ''This is a test.'' @ [233, 8364, 128512])
     = Some (cps ''# Test Markdown'' @ [10] @ cps ''This is a test.''
             @ [0xC3, 0xA9, 0xE2, 0x82, 0xAC, 0xF0, 0x9F, 0x98, 0x80])
   \<and> fst (save_markdown
            (MdStr (cps ''# Test Markdown'' @ [10] @ cps ''This is a test.'' @ [233, 8364, 128512]))
            out_md True root_fs) = Inr ()
   \<and> file_text
        (snd (save_markdown
               (MdStr (cps ''# Test Markdown'' @ [10] @ cps ''This is a test.'' @ [233, 8364, 128512]))
               out_md True root_fs)) out_md
      = Some (cps ''# Test Markdown'' @ [10] @ cps ''This is a test.'' @ [233, 8364, 128512])
   \<and> save_markdown (MdChunks test_chunks) out_md False root_fs
      = (Inl TypeError, snd (mkdir_parents (parent out_md) root_fs))"
proof -
  let ?s = "cps ''# Test Markdown'' @ [10] @ cps ''This is a test.'' @ [233, 8364, 128512]"
  let ?r = "save_markdown (MdStr ?s) out_md True root_fs"
  have enc: "utf8_encode ?s = Some (cps ''# Test Markdown'' @ [10] @ cps ''This is a test.''
             @ [0xC3, 0xA9, 0xE2, 0x82, 0xAC, 0xF0, 0x9F, 0x98, 0x80])"
    by (simp add: utf8_encode_cp_def cps_def)
  have pre: "utf8_encode ?s \<noteq> None \<and> out_md \<noteq> [] \<and> root_fs out_md \<noteq> Some Dir
        \<and> \<not> list_ex (\<lambda>q. is_file (root_fs q)) (ancestors (parent out_md))
        \<and> \<not> is_file (root_fs (parent out_md))"
    unfolding enc by (simp add: out_md_def root_fs_def parent_def)
  have mk: "mkdir_parents (parent out_md) root_fs = (Inr (), snd (mkdir_parents (parent out_md) root_fs))"
    by (simp add: mkdir_parents_def out_md_def root_fs_def parent_def)
  note t = plain_string_written_verbatim [of ?s out_md root_fs True "snd ?r" test_chunks]
  from t pre have ok: "fst ?r = Inr ()" by blast
  then have "?r = (Inr (), snd ?r)"
    using save_markdown_result [of "MdStr ?s" out_md True root_fs] by simp
  with t have "file_text (snd ?r) out_md = Some ?s" by blast
  moreover from t mk have "save_markdown (MdChunks test_chunks) out_md False root_fs
      = (Inl TypeError, snd (mkdir_parents (parent out_md) root_fs))" by blast
  ultimately show ?thesis using enc ok by simp
qed

section \<open>Properties of \<open>main\<close>\<close>

lemmas main_defs = main_def try_block_def except_handler_def print_line_def

lemma try_block_raises:
  "fst (try_block B a w) = Inl e \<longleftrightarrow>
     fst (parse_pdf_to_markdown B (arg_input a) (arg_pages a) (arg_options a) (files w)) = Inl e
     \<or> (\<exists>md_output fs1.
           parse_pdf_to_markdown B (arg_input a) (arg_pages a) (arg_options a) (files w)
             = (Inr md_output, fs1)
           \<and> (fst (save_markdown md_output (arg_output a) (page_chunks (arg_options a)) fs1) = Inl e
               \<or> fst (save_markdown md_output (arg_output a) (page_chunks (arg_options a)) fs1)
                    = Inr ()
                 \<and> e = UnicodeEncodeError
                 \<and> \<not> (encodable (SuccessfullyProcessed (arg_input a))
                        \<and> encodable (OutputSavedTo (arg_output a)))))"
proof (cases "parse_pdf_to_markdown B (arg_input a) (arg_pages a) (arg_options a) (files w)")
  case (Pair r fs1)
  show ?thesis
  proof (cases r)
    case (Inl e')
    with Pair show ?thesis by (simp add: try_block_def)
  next
    case (Inr md_output)
    show ?thesis
    proof (cases "save_markdown md_output (arg_output a) (page_chunks (arg_options a)) fs1")
      case save: (Pair r2 fs2)
      show ?thesis
      proof (cases r2)
        case (Inl e')
        with Pair Inr save show ?thesis by (simp add: try_block_def)
      next
        case ok: (Inr u)
        with Pair Inr save show ?thesis
          by (cases "encodable (SuccessfullyProcessed (arg_input a))";
              cases "encodable (OutputSavedTo (arg_output a))")
             (auto simp: try_block_def print_line_def)
      qed
    qed
  qed
qed

lemma try_block_returns:
  "fst (try_block B a w) = Inr () \<longleftrightarrow>
     (\<exists>md_output fs1.
        parse_pdf_to_markdown B (arg_input a) (arg_pages a) (arg_options a) (files w)
          = (Inr md_output, fs1)
        \<and> fst (save_markdown md_output (arg_output a) (page_chunks (arg_options a)) fs1) = Inr ())
     \<and> encodable (SuccessfullyProcessed (arg_input a))
     \<and> encodable (OutputSavedTo (arg_output a))"
proof (cases "parse_pdf_to_markdown B (arg_input a) (arg_pages a) (arg_options a) (files w)")
  case (Pair r fs1)
  show ?thesis
  proof (cases r)
    case (Inl e')
    with Pair show ?thesis by (simp add: try_block_def)
  next
    case (Inr md_output)
    show ?thesis
    proof (cases "save_markdown md_output (arg_output a) (page_chunks (arg_options a)) fs1")
      case save: (Pair r2 fs2)
      show ?thesis
      proof (cases r2)
        case (Inl e')
        with Pair Inr save show ?thesis by (simp add: try_block_def)
      next
        case ok: (Inr u)
        with Pair Inr save show ?thesis
          by (cases "encodable (SuccessfullyProcessed (arg_input a))";
              cases "encodable (OutputSavedTo (arg_output a))")
             (auto simp: try_block_def print_line_def)
      qed
    qed
  qed
qed

lemma try_block_printed:
  "fst (try_block B a w) = Inr () \<Longrightarrow>
     stdout (snd (try_block B a w))
       = stdout w @ [SuccessfullyProcessed (arg_input a), OutputSavedTo (arg_output a)]
     \<and> stderr (snd (try_block B a w)) = stderr w"
  by (auto simp: try_block_def print_line_def split: prod.splits sum.splits if_splits)

lemma try_block_stderr: "stderr (snd (try_block B a w)) = stderr w"
  by (auto simp: try_block_def print_line_def split: prod.splits sum.splits if_splits)

lemma try_block_files:
  "parse_pdf_to_markdown B (arg_input a) (arg_pages a) (arg_options a) (files w) = (Inl e, fs1)
     \<Longrightarrow> try_block B a w = (Inl e, w\<lparr>files := fs1\<rparr>)"
  by (simp add: try_block_def)

lemma except_handler_status: "fst (except_handler e w) = 1"
  by (simp add: except_handler_def print_line_def)

lemma except_handler_files: "files (snd (except_handler e w)) = files w"
  by (simp add: except_handler_def print_line_def)

lemma except_handler_printed:
  "encodable (AnErrorOccurred e) \<Longrightarrow>
     except_handler e w = (1, w\<lparr>stdout := stdout w @ [AnErrorOccurred e]\<rparr>)"
  by (simp add: except_handler_def print_line_def)

lemma except_handler_traceback:
  "\<not> encodable (AnErrorOccurred e) \<Longrightarrow>
     except_handler e w = (1, w\<lparr>stderr := stderr w @ [Traceback UnicodeEncodeError]\<rparr>)"
  by (simp add: except_handler_def print_line_def)

lemma main_namespace:
  "main B (Namespace a) w =
     (case try_block B a w of (Inr u, w1) \<Rightarrow> (0, w1) | (Inl e, w1) \<Rightarrow> except_handler e w1)"
  by (simp add: main_def)

text \<open>
  C6: when \<open>parse_pdf_to_markdown\<close> raises, \<open>main\<close> goes straight to its handler and
  exits with status 1, and the file system is the one the failed extraction left, so
  \<open>save_markdown\<close> has not run and the output path holds what it held before. The
  handler prints the error to standard output (when the message of a library exception
  cannot be encoded there, the run ends with a traceback instead). When the failure is
  the wrapper's own (the document does not open, or no valid page is left), the file
  system is exactly the one \<open>main\<close> started with.
\<close>

theorem main_aborts_when_extraction_fails:
  assumes "parse_pdf_to_markdown B (arg_input a) (arg_pages a) (arg_options a) (files w)
             = (Inl e, fs1)"
  shows "fst (main B (Namespace a) w) = 1
       \<and> files (snd (main B (Namespace a) w)) = fs1
       \<and> files (snd (main B (Namespace a) w)) (arg_output a) = fs1 (arg_output a)
       \<and> (encodable (AnErrorOccurred e)
            \<longrightarrow> main B (Namespace a) w
                = (1, w\<lparr>files := fs1, stdout := stdout w @ [AnErrorOccurred e]\<rparr>))
       \<and> (\<not> encodable (AnErrorOccurred e)
            \<longrightarrow> main B (Namespace a) w
                = (1, w\<lparr>files := fs1, stderr := stderr w @ [Traceback UnicodeEncodeError]\<rparr>))
       \<and> ((\<exists>m. fitz_open B (files w) (arg_input a) = Inl m) \<or> (\<exists>k. e = NoValidPages k)
            \<longrightarrow> fs1 = files w)"
proof -
  have m: "main B (Namespace a) w = except_handler e (w\<lparr>files := fs1\<rparr>)"
    using try_block_files [OF assms] by (simp add: main_def)
  have own: "fs1 = files w"
    if "(\<exists>m. fitz_open B (files w) (arg_input a) = Inl m) \<or> (\<exists>k. e = NoValidPages k)"
    using assms that
    by (auto simp: parse_pdf_to_markdown_def engine_result_def Let_def
             split: sum.splits if_splits prod.splits)
  have "fst (main B (Namespace a) w) = 1" "files (snd (main B (Namespace a) w)) = fs1"
    by (simp_all add: m except_handler_status except_handler_files)
  moreover have "main B (Namespace a) w
                   = (1, w\<lparr>files := fs1, stdout := stdout w @ [AnErrorOccurred e]\<rparr>)"
    if "encodable (AnErrorOccurred e)"
    using that by (simp add: m except_handler_printed)
  moreover have "main B (Namespace a) w
                   = (1, w\<lparr>files := fs1, stderr := stderr w @ [Traceback UnicodeEncodeError]\<rparr>)"
    if "\<not> encodable (AnErrorOccurred e)"
    using that by (simp add: m except_handler_traceback)
  ultimately show ?thesis using own by simp
qed

theorem main_aborts_when_extraction_fails_witness:
  "parse_pdf_to_markdown (spec_engine test_docs) (arg_input (cli_args (cps ''selective.pdf'') (Some [50]) False))
      (arg_pages (cli_args (cps ''selective.pdf'') (Some [50]) False))
      (arg_options (cli_args (cps ''selective.pdf'') (Some [50]) False)) (files start_world)
     = (Inl (NoValidPages 3), root_fs)
   \<and> main (spec_engine test_docs) (Namespace (cli_args (cps ''selective.pdf'') (Some [50]) False))
        start_world
     = (1, \<lparr>files = root_fs, stdout = [AnErrorOccurred (NoValidPages 3)], stderr = []\<rparr>)
   \<and> files (snd (main (spec_engine test_docs)
                   (Namespace (cli_args (cps ''selective.pdf'') (Some [50]) False)) start_world))
        out_md = None"
proof -
  let ?a = "cli_args (cps ''selective.pdf'') (Some [50]) False"
  have p: "parse_pdf_to_markdown (spec_engine test_docs) (arg_input ?a) (arg_pages ?a)
             (arg_options ?a) (files start_world) = (Inl (NoValidPages 3), root_fs)"
    by (simp add: parse_pdf_to_markdown_def example_defs cps_def)
  have e: "encodable (AnErrorOccurred (NoValidPages 3))" by simp
  note t = main_aborts_when_extraction_fails [OF p]
  from t e have "main (spec_engine test_docs) (Namespace ?a) start_world
       = (1, start_world\<lparr>files := root_fs, stdout := stdout start_world @ [AnErrorOccurred (NoValidPages 3)]\<rparr>)"
    by blast
  with p show ?thesis
    by (simp add: start_world_def cli_args_def root_fs_def out_md_def)
qed

text \<open>
  C7, as the claim states it, fails twice. The handler prints with a plain \<open>print\<close>, so
  the message of an error goes to standard output and standard error stays empty; and
  an error in the arguments ends the process inside argparse with status 2, not 1.
\<close>

theorem error_printed_to_stdout_counterexample:
  "fst (main (spec_engine test_docs) (Namespace (cli_args (cps ''selective.pdf'') (Some [50]) False))
          start_world) = 1
   \<and> stderr (snd (main (spec_engine test_docs)
                     (Namespace (cli_args (cps ''selective.pdf'') (Some [50]) False)) start_world))
       = []
   \<and> stdout (snd (main (spec_engine test_docs)
                     (Namespace (cli_args (cps ''selective.pdf'') (Some [50]) False)) start_world))
       = [AnErrorOccurred (NoValidPages 3)]
   \<and> fst (main (spec_engine test_docs)
            (ArgumentError (cps ''the following arguments are required: output'')) start_world) = 2"
  by (simp add: main_defs parse_pdf_to_markdown_def example_defs cps_def)

text \<open>
  C7 (amended): when argparse rejects the arguments the process exits with status 2 and
  the usage error on standard error. Otherwise \<open>main\<close> exits with status 0 exactly when
  extraction, saving and the two success lines all go through, and with status 1 on any
  exception raised by one of them; it then prints \<open>An error occurred:\<close> with that
  exception's message to standard output, after whatever the \<open>try\<close> block had printed.
  Only when that message cannot be encoded for standard output does the run end with the
  interpreter's traceback on standard error, still with status 1.
\<close>

theorem main_exit_status:
  "main B (ArgumentError m) w = (2, w\<lparr>stderr := stderr w @ [Usage m]\<rparr>)
   \<and> main B HelpRequested w = (0, w\<lparr>stdout := stdout w @ [Help]\<rparr>)
   \<and> (fst (main B (Namespace a) w) = 0 \<or> fst (main B (Namespace a) w) = 1)
   \<and> (fst (main B (Namespace a) w) = 0
        \<longleftrightarrow> (\<exists>md_output fs1.
               parse_pdf_to_markdown B (arg_input a) (arg_pages a) (arg_options a) (files w)
                 = (Inr md_output, fs1)
               \<and> fst (save_markdown md_output (arg_output a) (page_chunks (arg_options a)) fs1)
                 = Inr ())
            \<and> encodable (SuccessfullyProcessed (arg_input a))
            \<and> encodable (OutputSavedTo (arg_output a)))
   \<and> (fst (main B (Namespace a) w) = 0
        \<longrightarrow> stdout (snd (main B (Namespace a) w))
              = stdout w @ [SuccessfullyProcessed (arg_input a), OutputSavedTo (arg_output a)]
            \<and> stderr (snd (main B (Namespace a) w)) = stderr w)
   \<and> (fst (main B (Namespace a) w) = 1 \<longleftrightarrow> (\<exists>e. fst (try_block B a w) = Inl e))
   \<and> (\<forall>e. fst (try_block B a w) = Inl e \<longleftrightarrow>
          fst (parse_pdf_to_markdown B (arg_input a) (arg_pages a) (arg_options a) (files w))
            = Inl e
          \<or> (\<exists>md_output fs1.
                parse_pdf_to_markdown B (arg_input a) (arg_pages a) (arg_options a) (files w)
                  = (Inr md_output, fs1)
                \<and> (fst (save_markdown md_output (arg_output a) (page_chunks (arg_options a)) fs1)
                     = Inl e
                    \<or> fst (save_markdown md_output (arg_output a) (page_chunks (arg_options a)) fs1)
                         = Inr ()
                      \<and> e = UnicodeEncodeError
                      \<and> \<not> (encodable (SuccessfullyProcessed (arg_input a))
                             \<and> encodable (OutputSavedTo (arg_output a))))))
   \<and> (\<forall>e. fst (try_block B a w) = Inl e \<and> encodable (AnErrorOccurred e)
          \<longrightarrow> stdout (snd (main B (Namespace a) w))
                = stdout (snd (try_block B a w)) @ [AnErrorOccurred e]
              \<and> stderr (snd (main B (Namespace a) w)) = stderr w)
   \<and> (\<forall>e. fst (try_block B a w) = Inl e \<and> \<not> encodable (AnErrorOccurred e)
          \<longrightarrow> stdout (snd (main B (Namespace a) w)) = stdout (snd (try_block B a w))
              \<and> stderr (snd (main B (Namespace a) w)) = stderr w @ [Traceback UnicodeEncodeError])"
proof -
  obtain r w1 where t: "try_block B a w = (r, w1)" by (cases "try_block B a w")
  have se: "stderr w1 = stderr w" using try_block_stderr [of B a w] t by simp
  have status: "(fst (main B (Namespace a) w) = 0 \<or> fst (main B (Namespace a) w) = 1)
      \<and> (fst (main B (Namespace a) w) = 0 \<longleftrightarrow> fst (try_block B a w) = Inr ())
      \<and> (fst (main B (Namespace a) w) = 1 \<longleftrightarrow> (\<exists>e. fst (try_block B a w) = Inl e))"
    using t by (cases r) (simp_all add: main_def except_handler_status)
  have zero: "stdout (snd (main B (Namespace a) w))
                = stdout w @ [SuccessfullyProcessed (arg_input a), OutputSavedTo (arg_output a)]
              \<and> stderr (snd (main B (Namespace a) w)) = stderr w"
    if "fst (main B (Namespace a) w) = 0"
  proof -
    from that status have ok: "fst (try_block B a w) = Inr ()" by blast
    with t have "main B (Namespace a) w = (0, snd (try_block B a w))" by (simp add: main_def)
    with try_block_printed [OF ok] show ?thesis by simp
  qed
  have shown: "stdout (snd (main B (Namespace a) w))
                 = stdout (snd (try_block B a w)) @ [AnErrorOccurred e]
               \<and> stderr (snd (main B (Namespace a) w)) = stderr w"
    if "fst (try_block B a w) = Inl e" "encodable (AnErrorOccurred e)" for e
    using that t se by (simp add: main_def except_handler_printed)
  have traced: "stdout (snd (main B (Namespace a) w)) = stdout (snd (try_block B a w))
               \<and> stderr (snd (main B (Namespace a) w)) = stderr w @ [Traceback UnicodeEncodeError]"
    if "fst (try_block B a w) = Inl e" "\<not> encodable (AnErrorOccurred e)" for e
    using that t se by (simp add: main_def except_handler_traceback)
  have args: "main B (ArgumentError m) w = (2, w\<lparr>stderr := stderr w @ [Usage m]\<rparr>)"
    "main B HelpRequested w = (0, w\<lparr>stdout := stdout w @ [Help]\<rparr>)"
    by (simp_all add: main_def)
  from args status zero shown traced try_block_raises [of B a w] try_block_returns [of B a w]
  show ?thesis by (intro conjI allI impI iffI) blast+
qed

theorem main_exit_status_witness:
  "fst (main (spec_engine test_docs) (Namespace (cli_args (cps ''multi_page.pdf'') (Some [1]) True))
          start_world) = 0
   \<and> stdout (snd (main (spec_engine test_docs)
                     (Namespace (cli_args (cps ''multi_page.pdf'') (Some [1]) True)) start_world))
       = [SuccessfullyProcessed (cps ''multi_page.pdf''), OutputSavedTo out_md]
   \<and> fst (main (spec_engine test_docs) (Namespace (cli_args (cps ''missing.pdf'') None False))
            start_world) = 1
   \<and> stdout (snd (main (spec_engine test_docs) (Namespace (cli_args (cps ''missing.pdf'') None False))
                     start_world))
       = [AnErrorOccurred (EngineError (cps ''cannot open document''))]
   \<and> main (spec_engine test_docs) (ArgumentError (cps ''unrecognized arguments: --fast''))
        start_world
       = (2, \<lparr>files = root_fs, stdout = [],
              stderr = [Usage (cps ''unrecognized arguments: --fast'')]\<rparr>)
   \<and> fst (main (spec_engine test_docs)
            (Namespace ((cli_args (cps ''multi_page.pdf'') None False)\<lparr>arg_output := odd_md\<rparr>))
            start_world) = 1
   \<and> stdout (snd (main (spec_engine test_docs)
                     (Namespace ((cli_args (cps ''multi_page.pdf'') None False)\<lparr>arg_output := odd_md\<rparr>))
                     start_world))
       = [SuccessfullyProcessed (cps ''multi_page.pdf''), AnErrorOccurred UnicodeEncodeError]
   \<and> is_file (files (snd (main (spec_engine test_docs)
                     (Namespace ((cli_args (cps ''multi_page.pdf'') None False)\<lparr>arg_output := odd_md\<rparr>))
                     start_world)) odd_md)"
proof -
  let ?B = "spec_engine test_docs"
  let ?ok = "cli_args (cps ''multi_page.pdf'') (Some [1]) True"
  let ?bad = "cli_args (cps ''missing.pdf'') None False"
  let ?odd = "(cli_args (cps ''multi_page.pdf'') None False)\<lparr>arg_output := odd_md\<rparr>"
  let ?m = "cps ''unrecognized arguments: --fast''"
  note ok = main_exit_status [of ?B ?m start_world ?ok]
  note bad = main_exit_status [of ?B ?m start_world ?bad]
  note odd = main_exit_status [of ?B ?m start_world ?odd]
  have p: "parse_pdf_to_markdown ?B (arg_input ?ok) (arg_pages ?ok) (arg_options ?ok) (files start_world)
             = (Inr (MdChunks [spec_page_result two_pages 1]), root_fs)"
    by (simp add: parse_pdf_to_markdown_def engine_result_def example_defs cps_def)
  have s: "fst (save_markdown (MdChunks [spec_page_result two_pages 1]) (arg_output ?ok)
                  (page_chunks (arg_options ?ok)) root_fs) = Inr ()"
    by (simp add: save_defs example_defs cps_def)
  have enc: "encodable (SuccessfullyProcessed (arg_input ?ok))"
            "encodable (OutputSavedTo (arg_output ?ok))"
    by (simp_all add: cli_args_def out_md_def cps_def utf8_encode_cp_def)
  from ok p s enc have zero: "fst (main ?B (Namespace ?ok) start_world) = 0" by blast
  with ok have "stdout (snd (main ?B (Namespace ?ok) start_world))
       = stdout start_world @ [SuccessfullyProcessed (arg_input ?ok), OutputSavedTo (arg_output ?ok)]"
    by blast
  then have out: "stdout (snd (main ?B (Namespace ?ok) start_world))
       = [SuccessfullyProcessed (cps ''multi_page.pdf''), OutputSavedTo out_md]"
    by (simp add: start_world_def cli_args_def)
  have tb: "try_block ?B ?bad start_world
              = (Inl (EngineError (cps ''cannot open document'')), start_world)"
    by (simp add: try_block_def parse_pdf_to_markdown_def example_defs cps_def)
  then have "\<exists>e. fst (try_block ?B ?bad start_world) = Inl e" by simp
  with bad have one: "fst (main ?B (Namespace ?bad) start_world) = 1" by blast
  have "encodable (AnErrorOccurred (EngineError (cps ''cannot open document'')))"
    by (simp add: cps_def utf8_encode_cp_def)
  with bad tb have "stdout (snd (main ?B (Namespace ?bad) start_world))
       = stdout (snd (try_block ?B ?bad start_world))
         @ [AnErrorOccurred (EngineError (cps ''cannot open document''))]"
    by (metis fst_conv)
  with tb have err: "stdout (snd (main ?B (Namespace ?bad) start_world))
       = [AnErrorOccurred (EngineError (cps ''cannot open document''))]"
    by (simp add: start_world_def)
  from ok have usage: "main ?B (ArgumentError ?m) start_world
       = (2, \<lparr>files = root_fs, stdout = [], stderr = [Usage ?m]\<rparr>)"
    by (simp add: start_world_def)
  have to: "fst (try_block ?B ?odd start_world) = Inl UnicodeEncodeError"
    "stdout (snd (try_block ?B ?odd start_world)) = [SuccessfullyProcessed (cps ''multi_page.pdf'')]"
    "is_file (files (snd (try_block ?B ?odd start_world)) odd_md)"
    by (simp_all add: try_block_def print_line_def parse_pdf_to_markdown_def engine_result_def
          save_defs example_defs cps_def upt_conv_Cons)
  then have "\<exists>e. fst (try_block ?B ?odd start_world) = Inl e" by simp
  with odd have one': "fst (main ?B (Namespace ?odd) start_world) = 1" by blast
  have "encodable (AnErrorOccurred UnicodeEncodeError)" by simp
  with odd to(1) have "stdout (snd (main ?B (Namespace ?odd) start_world))
       = stdout (snd (try_block ?B ?odd start_world)) @ [AnErrorOccurred UnicodeEncodeError]"
    by blast
  with to(2) have err': "stdout (snd (main ?B (Namespace ?odd) start_world))
       = [SuccessfullyProcessed (cps ''multi_page.pdf''), AnErrorOccurred UnicodeEncodeError]"
    by simp
  have "files (snd (main ?B (Namespace ?odd) start_world))
          = files (snd (try_block ?B ?odd start_world))"
    using to(1) by (cases "try_block ?B ?odd start_world") (simp add: main_def except_handler_files)
  with to(3) have written: "is_file (files (snd (main ?B (Namespace ?odd) start_world)) odd_md)"
    by simp
  from zero out one err usage one' err' written show ?thesis by blast
qed

section \<open>Page contents\<close>

lemma spec_selection_set:
  "set (spec_selection doc ps) = {p \<in> set ps. 0 \<le> p \<and> p < int (length doc)}"
  by (auto simp: spec_selection_def)

lemma spec_selection_sorted: "sorted (spec_selection doc ps) \<and> distinct (spec_selection doc ps)"
  by (simp add: spec_selection_def sorted_filter [where f = "\<lambda>x. x", simplified])

lemma spec_selection_filter:
  "spec_selection doc [p \<leftarrow> ps. 0 \<le> p \<and> p < int (length doc)] = spec_selection doc ps"
proof -
  have "sorted (spec_selection doc [p \<leftarrow> ps. 0 \<le> p \<and> p < int (length doc)])"
       "distinct (spec_selection doc [p \<leftarrow> ps. 0 \<le> p \<and> p < int (length doc)])"
       "sorted (spec_selection doc ps)" "distinct (spec_selection doc ps)"
    using spec_selection_sorted by blast+
  moreover have "set (spec_selection doc [p \<leftarrow> ps. 0 \<le> p \<and> p < int (length doc)])
                  = set (spec_selection doc ps)"
    by (auto simp: spec_selection_set)
  ultimately show ?thesis by (rule sorted_distinct_set_unique)
qed

lemma contains_examples:
  "contains (cps ''First page: Hello World!Second page: Goodbye World!'') (cps ''First page: Hello World!'')"
  "contains (cps ''First page: Hello World!Second page: Goodbye World!'') (cps ''Second page: Goodbye World!'')"
  "contains (cps ''Second page: Goodbye World!'') (cps ''Second page: Goodbye World!'')"
  "\<not> contains (cps ''Second page: Goodbye World!'') (cps ''First page: Hello World!'')"
  by (simp_all add: cps_def)

text \<open>
  C8: with the extraction engine of the specification, a filter with at least one valid
  index yields output built from the pages it requests and from no other page: the text
  is the concatenation of the Markdown of the selected pages (or one chunk for each of
  them), and the selected pages are exactly the requested indices that lie in the
  document. For the two-page document of the tests, extraction without a filter contains
  both pages' strings, and extraction with \<open>pages=[1]\<close> contains the second string and
  not the first.
\<close>

theorem only_requested_pages_extracted:
  assumes "docs pdf_path = Some doc" and "ps \<noteq> []"
    and "\<exists>p\<in>set ps. 0 \<le> p \<and> p < int (length doc)"
  shows "(\<exists>sel. set sel = {p \<in> set ps. 0 \<le> p \<and> p < int (length doc)}
               \<and> sorted sel \<and> distinct sel
               \<and> parse_pdf_to_markdown (spec_engine docs) pdf_path (Some ps) opts fs =
                   (if page_chunks opts then Inr (MdChunks (map (spec_page_result doc) sel))
                    else Inr (MdStr (concat (map (\<lambda>p. doc ! nat p) sel))), fs))
       \<and> (\<exists>out. fst (parse_pdf_to_markdown (spec_engine test_docs) (cps ''multi_page.pdf'') None
                        default_options fs) = Inr (MdStr out)
               \<and> contains out (cps ''First page: Hello World!'')
               \<and> contains out (cps ''Second page: Goodbye World!''))
       \<and> (\<exists>out. fst (parse_pdf_to_markdown (spec_engine test_docs) (cps ''multi_page.pdf'') (Some [1])
                        default_options fs) = Inr (MdStr out)
               \<and> contains out (cps ''Second page: Goodbye World!'')
               \<and> \<not> contains out (cps ''First page: Hello World!''))"
proof -
  let ?valid = "[p \<leftarrow> ps. 0 \<le> p \<and> p < int (length doc)]"
  have o: "fitz_open (spec_engine docs) fs pdf_path = Inr doc"
    using assms(1) by (simp add: spec_engine_def)
  have n: "page_count (spec_engine docs) doc = length doc"
    by (simp add: spec_engine_def)
  have ne: "?valid \<noteq> []" using assms(3) by (auto simp: filter_empty_conv)
  have "parse_pdf_to_markdown (spec_engine docs) pdf_path (Some ps) opts fs
          = engine_result (spec_to_markdown doc ?valid opts fs)"
    using o assms(2) ne by (simp add: parse_pdf_to_markdown_def n) (simp add: spec_engine_def)
  then have "parse_pdf_to_markdown (spec_engine docs) pdf_path (Some ps) opts fs =
               (if page_chunks opts
                then Inr (MdChunks (map (spec_page_result doc) (spec_selection doc ps)))
                else Inr (MdStr (concat (map (\<lambda>p. doc ! nat p) (spec_selection doc ps)))), fs)"
    by (simp add: spec_to_markdown_def engine_result_def spec_selection_filter)
  with spec_selection_set [of doc ps] spec_selection_sorted [of doc ps]
  have general: "\<exists>sel. set sel = {p \<in> set ps. 0 \<le> p \<and> p < int (length doc)}
               \<and> sorted sel \<and> distinct sel
               \<and> parse_pdf_to_markdown (spec_engine docs) pdf_path (Some ps) opts fs =
                   (if page_chunks opts then Inr (MdChunks (map (spec_page_result doc) sel))
                    else Inr (MdStr (concat (map (\<lambda>p. doc ! nat p) sel))), fs)"
    by blast
  have "fst (parse_pdf_to_markdown (spec_engine test_docs) (cps ''multi_page.pdf'') None
               default_options fs)
          = Inr (MdStr (cps ''First page: Hello World!Second page: Goodbye World!''))"
    by (simp add: parse_pdf_to_markdown_def engine_result_def example_defs cps_def upt_conv_Cons)
  with contains_examples(1,2)
  have both: "\<exists>out. fst (parse_pdf_to_markdown (spec_engine test_docs) (cps ''multi_page.pdf'') None
                        default_options fs) = Inr (MdStr out)
               \<and> contains out (cps ''First page: Hello World!'')
               \<and> contains out (cps ''Second page: Goodbye World!'')"
    by blast
  have "fst (parse_pdf_to_markdown (spec_engine test_docs) (cps ''multi_page.pdf'') (Some [1])
               default_options fs)
          = Inr (MdStr (cps ''Second page: Goodbye World!''))"
    by (simp add: parse_pdf_to_markdown_def engine_result_def example_defs cps_def)
  with contains_examples(3,4)
  have second: "\<exists>out. fst (parse_pdf_to_markdown (spec_engine test_docs) (cps ''multi_page.pdf'')
                        (Some [1]) default_options fs) = Inr (MdStr out)
               \<and> contains out (cps ''Second page: Goodbye World!'')
               \<and> \<not> contains out (cps ''First page: Hello World!'')"
    by blast
  from general both second show ?thesis by blast
qed

theorem only_requested_pages_extracted_witness:
  "test_docs (cps ''selective.pdf'') = Some three_pages \<and> [5, 1, 1::int] \<noteq> []
   \<and> (0::int) \<le> 1 \<and> (1::int) < int (length three_pages)
   \<and> parse_pdf_to_markdown (spec_engine test_docs) (cps ''selective.pdf'') (Some [5, 1, 1])
        default_options root_fs
      = (Inr (MdStr (cps ''Page Two Content'')), root_fs)
   \<and> contains (cps ''Page Two Content'') (cps ''Page Two Content'')
   \<and> \<not> contains (cps ''Page Two Content'') (cps ''Page One Content'')
   \<and> \<not> contains (cps ''Page Two Content'') (cps ''Page Three Content'')"
proof -
  have d: "test_docs (cps ''selective.pdf'') = Some three_pages"
    by (simp add: test_docs_def cps_def)
  have ne: "[5, 1, 1::int] \<noteq> []" by simp
  have v: "\<exists>p\<in>set [5, 1, 1::int]. 0 \<le> p \<and> p < int (length three_pages)"
    by (simp add: three_pages_def)
  note g = only_requested_pages_extracted
             [where docs = test_docs and doc = three_pages and opts = default_options
                and fs = root_fs, OF d ne v, THEN conjunct1]
  then obtain sel where sel: "set sel = {p \<in> set [5, 1, 1::int]. 0 \<le> p \<and> p < int (length three_pages)}"
      "sorted sel" "distinct sel"
    and out: "parse_pdf_to_markdown (spec_engine test_docs) (cps ''selective.pdf'') (Some [5, 1, 1])
                default_options root_fs
              = (if page_chunks default_options
                 then Inr (MdChunks (map (spec_page_result three_pages) sel))
                 else Inr (MdStr (concat (map (\<lambda>p. three_pages ! nat p) sel))), root_fs)"
    by (elim exE conjE)
  have "set sel = {1}" unfolding sel(1) by (auto simp: three_pages_def)
  with sel(2,3) have "sel = [1]"
    using sorted_distinct_set_unique [of sel "[1]"] by simp
  with out have p: "parse_pdf_to_markdown (spec_engine test_docs) (cps ''selective.pdf'')
                   (Some [5, 1, 1]) default_options root_fs
                 = (Inr (MdStr (cps ''Page Two Content'')), root_fs)"
    by (simp add: default_options_def three_pages_def)
  have c: "contains (cps ''Page Two Content'') (cps ''Page Two Content'')"
    "\<not> contains (cps ''Page Two Content'') (cps ''Page One Content'')"
    "\<not> contains (cps ''Page Two Content'') (cps ''Page Three Content'')"
    by (simp_all add: cps_def)
  have l: "(0::int) \<le> 1 \<and> (1::int) < int (length three_pages)"
    by (simp add: three_pages_def)
  from d ne l p c show ?thesis by blast
qed

section \<open>Page numbering\<close>

lemma parse_spec_engine:
  assumes "docs pdf_path = Some doc" and "ps \<noteq> []"
    and "\<exists>p\<in>set ps. 0 \<le> p \<and> p < int (length doc)"
  shows "parse_pdf_to_markdown (spec_engine docs) pdf_path (Some ps) opts fs =
           (if page_chunks opts
            then Inr (MdChunks (map (spec_page_result doc) (spec_selection doc ps)))
            else Inr (MdStr (concat (map (\<lambda>p. doc ! nat p) (spec_selection doc ps)))), fs)"
proof -
  let ?valid = "[p \<leftarrow> ps. 0 \<le> p \<and> p < int (length doc)]"
  have o: "fitz_open (spec_engine docs) fs pdf_path = Inr doc"
    using assms(1) by (simp add: spec_engine_def)
  have n: "page_count (spec_engine docs) doc = length doc"
    by (simp add: spec_engine_def)
  have ne: "?valid \<noteq> []" using assms(3) by (auto simp: filter_empty_conv)
  have "parse_pdf_to_markdown (spec_engine docs) pdf_path (Some ps) opts fs
          = engine_result (spec_to_markdown doc ?valid opts fs)"
    using o assms(2) ne by (simp add: parse_pdf_to_markdown_def n) (simp add: spec_engine_def)
  then show ?thesis
    by (simp add: spec_to_markdown_def engine_result_def spec_selection_filter)
qed

lemma spec_page_result_section:
  "spec_page_section (spec_page_result doc p)
     = cps ''# Page '' @ str_int (p + 1) @ [10, 10] @ doc ! nat p @ [10, 10]"
  by (simp add: spec_page_section_def spec_page_header_def spec_page_label_def
        spec_page_result_def text_of_def)

lemma one_based_sections:
  assumes "length chunks = length sel"
    and "\<forall>i<length sel. \<exists>m. metadata (chunks ! i) = Some (Dict m)
                              \<and> m (cps ''page'') = Some (PInt (sel ! i + 1))"
  shows "map spec_page_section chunks =
           map (\<lambda>(p, c). cps ''# Page '' @ str_int (p + 1) @ [10, 10]
                          @ py_str (text_of c) @ [10, 10]) (zip sel chunks)"
proof (rule nth_equalityI)
  show "length (map spec_page_section chunks) =
          length (map (\<lambda>(p, c). cps ''# Page '' @ str_int (p + 1) @ [10, 10]
                          @ py_str (text_of c) @ [10, 10]) (zip sel chunks))"
    using assms(1) by simp
next
  fix i assume "i < length (map spec_page_section chunks)"
  then have i: "i < length chunks" "i < length sel" using assms(1) by simp_all
  with assms(2) obtain m where
    "metadata (chunks ! i) = Some (Dict m)" "m (cps ''page'') = Some (PInt (sel ! i + 1))"
    by blast
  then have "spec_page_label (chunks ! i) = str_int (sel ! i + 1)"
    by (simp add: spec_page_label_def)
  with i show "map spec_page_section chunks ! i =
          map (\<lambda>(p, c). cps ''# Page '' @ str_int (p + 1) @ [10, 10]
                          @ py_str (text_of c) @ [10, 10]) (zip sel chunks) ! i"
    by (simp add: spec_page_section_def spec_page_header_def)
qed

text \<open>
  C5: the two numberings meet in the wrapper and neither is converted. Over any library:
  the requested indices are judged against \<open>0 \<le> p < total_pages\<close> and handed over as
  they are; when the library answers with one chunk for each of them whose metadata
  holds the 1-based number \<open>p + 1\<close>, the wrapper returns these chunks unchanged and
  \<open>save_markdown\<close> prints \<open># Page p+1\<close> for the page selected by index \<open>p\<close>. The
  extraction engine of the specification is such a library: for every document and
  filter, the chunk of the page with 0-based index \<open>p\<close> carries the page number
  \<open>p + 1\<close>, and that number stands in the header of the saved file.
\<close>

theorem numbering_asymmetry_preserved:
  assumes "fitz_open B fs pdf_path = Inr doc"
    and "sel = [p \<leftarrow> ps. 0 \<le> p \<and> p < int (page_count B doc)]" and "sel \<noteq> []"
    and "to_markdown B doc sel opts fs = (Inr (MdChunks chunks), fs1)"
    and "length chunks = length sel"
    and "\<forall>i<length sel. \<exists>m. metadata (chunks ! i) = Some (Dict m)
                              \<and> m (cps ''page'') = Some (PInt (sel ! i + 1))"
    and "save_markdown (MdChunks chunks) output_path True fs1 = (Inr (), fs2)"
  shows "parse_pdf_to_markdown B pdf_path (Some ps) opts fs = (Inr (MdChunks chunks), fs1)
       \<and> (\<forall>p\<in>set sel. p \<in> set ps \<and> 0 \<le> p \<and> p < int (page_count B doc))
       \<and> file_text fs2 output_path
           = Some (concat (map (\<lambda>(p, c). cps ''# Page '' @ str_int (p + 1) @ [10, 10]
                                          @ py_str (text_of c) @ [10, 10]) (zip sel chunks)))
       \<and> (docs pdf_path' = Some doc' \<and> ps' \<noteq> []
            \<and> (\<exists>p\<in>set ps'. 0 \<le> p \<and> p < int (length doc')) \<and> page_chunks opts'
            \<and> save_markdown (MdChunks (map (spec_page_result doc') (spec_selection doc' ps')))
                 output_path' True fs' = (Inr (), fs2')
          \<longrightarrow> parse_pdf_to_markdown (spec_engine docs) pdf_path' (Some ps') opts' fs'
                = (Inr (MdChunks (map (spec_page_result doc') (spec_selection doc' ps'))), fs')
              \<and> set (spec_selection doc' ps') = {p \<in> set ps'. 0 \<le> p \<and> p < int (length doc')}
              \<and> map metadata (map (spec_page_result doc') (spec_selection doc' ps'))
                  = map (\<lambda>p. Some (Dict [cps ''page'' \<mapsto> PInt (p + 1)])) (spec_selection doc' ps')
              \<and> file_text fs2' output_path'
                  = Some (concat (map (\<lambda>p. cps ''# Page '' @ str_int (p + 1) @ [10, 10]
                                            @ doc' ! nat p @ [10, 10])
                                      (spec_selection doc' ps'))))"
proof -
  from assms(2,3) have ps: "ps \<noteq> []" by auto
  have a: "parse_pdf_to_markdown B pdf_path (Some ps) opts fs = (Inr (MdChunks chunks), fs1)"
    using assms(1,3,4) ps unfolding assms(2)
    by (simp add: parse_pdf_to_markdown_def engine_result_def)
  have b: "\<forall>p\<in>set sel. p \<in> set ps \<and> 0 \<le> p \<and> p < int (page_count B doc)"
    unfolding assms(2) by simp
  have c: "file_text fs2 output_path
           = Some (concat (map (\<lambda>(p, c). cps ''# Page '' @ str_int (p + 1) @ [10, 10]
                                          @ py_str (text_of c) @ [10, 10]) (zip sel chunks)))"
    using save_markdown_chunks_text [OF assms(7)] one_based_sections [OF assms(5,6)]
    by simp
  have d: "parse_pdf_to_markdown (spec_engine docs) pdf_path' (Some ps') opts' fs'
                = (Inr (MdChunks (map (spec_page_result doc') (spec_selection doc' ps'))), fs')
              \<and> set (spec_selection doc' ps') = {p \<in> set ps'. 0 \<le> p \<and> p < int (length doc')}
              \<and> map metadata (map (spec_page_result doc') (spec_selection doc' ps'))
                  = map (\<lambda>p. Some (Dict [cps ''page'' \<mapsto> PInt (p + 1)])) (spec_selection doc' ps')
              \<and> file_text fs2' output_path'
                  = Some (concat (map (\<lambda>p. cps ''# Page '' @ str_int (p + 1) @ [10, 10]
                                            @ doc' ! nat p @ [10, 10])
                                      (spec_selection doc' ps')))"
    if h: "docs pdf_path' = Some doc'" "ps' \<noteq> []"
          "\<exists>p\<in>set ps'. 0 \<le> p \<and> p < int (length doc')" "page_chunks opts'"
          "save_markdown (MdChunks (map (spec_page_result doc') (spec_selection doc' ps')))
                 output_path' True fs' = (Inr (), fs2')"
  proof -
    have "parse_pdf_to_markdown (spec_engine docs) pdf_path' (Some ps') opts' fs'
            = (Inr (MdChunks (map (spec_page_result doc') (spec_selection doc' ps'))), fs')"
      using parse_spec_engine [where docs = docs and pdf_path = pdf_path' and doc = doc'
                                   and opts = opts' and fs = fs', OF h(1,2,3)] h(4)
      by simp
    moreover have "map metadata (map (spec_page_result doc') (spec_selection doc' ps'))
                  = map (\<lambda>p. Some (Dict [cps ''page'' \<mapsto> PInt (p + 1)])) (spec_selection doc' ps')"
      by (simp add: spec_page_result_def)
    moreover have "file_text fs2' output_path'
                  = Some (concat (map (\<lambda>p. cps ''# Page '' @ str_int (p + 1) @ [10, 10]
                                            @ doc' ! nat p @ [10, 10])
                                      (spec_selection doc' ps')))"
      using save_markdown_chunks_text [OF h(5)]
      by (simp add: spec_page_result_section comp_def)
    ultimately show ?thesis using spec_selection_set [of doc' ps'] by simp
  qed
  from a b c d show ?thesis by blast
qed

theorem numbering_asymmetry_preserved_witness:
  "fitz_open (spec_engine test_docs) root_fs (cps ''multi_page.pdf'') = Inr two_pages
   \<and> [p \<leftarrow> [0, 1, 5]. 0 \<le> p \<and> p < int (page_count (spec_engine test_docs) two_pages)] = [0, 1]
   \<and> parse_pdf_to_markdown (spec_engine test_docs) (cps ''multi_page.pdf'') (Some [0, 1, 5])
        chunk_options root_fs
      = (Inr (MdChunks [spec_page_result two_pages 0, spec_page_result two_pages 1]), root_fs)
   \<and> metadata (spec_page_result two_pages 0) = Some (Dict [cps ''page'' \<mapsto> PInt 1])
   \<and> metadata (spec_page_result two_pages 1) = Some (Dict [cps ''page'' \<mapsto> PInt 2])
   \<and> fst (save_markdown (MdChunks [spec_page_result two_pages 0, spec_page_result two_pages 1])
            out_md True root_fs) = Inr ()
   \<and> file_text
        (snd (save_markdown (MdChunks [spec_page_result two_pages 0, spec_page_result two_pages 1])
                out_md True root_fs)) out_md
       = Some (cps ''# Page 1'' @ [10, 10] @ cps ''First page: Hello World!'' @ [10, 10]
               @ cps ''# Page 2'' @ [10, 10] @ cps ''Second page: Goodbye World!'' @ [10, 10])"
proof -
  let ?B = "spec_engine test_docs"
  let ?cs = "[spec_page_result two_pages 0, spec_page_result two_pages 1]"
  let ?fs2 = "snd (save_markdown (MdChunks ?cs) out_md True root_fs)"
  note o = open_multi_page [of root_fs]
  have sel: "[0, 1] = [p \<leftarrow> [0, 1, 5]. 0 \<le> p \<and> p < int (page_count ?B two_pages)]"
    by (simp add: page_count_examples)
  have ne: "[0, 1::int] \<noteq> []" by simp
  have lib: "to_markdown ?B two_pages [0, 1] chunk_options root_fs = (Inr (MdChunks ?cs), root_fs)"
    by (simp add: example_defs)
  have len: "length ?cs = length [0, 1::int]" by simp
  have m: "metadata (spec_page_result two_pages 0) = Some (Dict [cps ''page'' \<mapsto> PInt 1])"
          "metadata (spec_page_result two_pages 1) = Some (Dict [cps ''page'' \<mapsto> PInt 2])"
    by (simp_all add: spec_page_result_def)
  have one: "\<forall>i<length [0, 1::int]. \<exists>m. metadata (?cs ! i) = Some (Dict m)
                              \<and> m (cps ''page'') = Some (PInt ([0, 1] ! i + 1))"
    by (simp add: spec_page_result_def less_Suc_eq)
  have s: "fst (save_markdown (MdChunks ?cs) out_md True root_fs) = Inr ()"
    by (simp add: save_defs example_defs cps_def)
  then have ok: "save_markdown (MdChunks ?cs) out_md True root_fs = (Inr (), ?fs2)"
    using save_markdown_result [of "MdChunks ?cs" out_md True root_fs] by simp
  note t = numbering_asymmetry_preserved [OF o sel ne lib len one ok]
  from t [THEN conjunct1]
  have p: "parse_pdf_to_markdown ?B (cps ''multi_page.pdf'') (Some [0, 1, 5]) chunk_options root_fs
             = (Inr (MdChunks ?cs), root_fs)" .
  from t [THEN conjunct2, THEN conjunct2, THEN conjunct1]
  have "file_text ?fs2 out_md
       = Some (cps ''# Page 1'' @ [10, 10] @ cps ''First page: Hello World!'' @ [10, 10]
               @ cps ''# Page 2'' @ [10, 10] @ cps ''Second page: Goodbye World!'' @ [10, 10])"
    by (simp add: str_int_def digits.simps text_of_def spec_page_result_def two_pages_def cps_def)
  with o sel [symmetric] p m s show ?thesis by blast
qed

end
